theory Spec2Isabelle
  imports Complex_Main "HOL-Library.Word"
begin

unbundle bit_operations_syntax

section \<open>Frame codec of the live voice session\<close>

text \<open>
  The component under study is \<^verbatim>\<open>src/components/LiveAssistant.tsx\<close>. Its codec moves
  16-bit PCM samples through three representations: a typed array of samples, the bytes
  of the array's buffer, and the base64 text carried by the transport.

  A JavaScript exception is a value of \<open>js_error\<close>; a function that may throw returns
  \<open>js_error + 'a\<close> with \<open>Inl\<close> for the exception.
\<close>

datatype js_error = RangeError | NotSupportedError | InvalidCharacterError

type_synonym byte = "8 word"
type_synonym int16 = "16 word"

subsection \<open>The platform's base64 functions\<close>

text \<open>
  \<^verbatim>\<open>btoa\<close> and \<^verbatim>\<open>atob\<close> belong to the browser. They are modelled after the HTML
  standard: \<^verbatim>\<open>btoa\<close> is base64 with padding (RFC 4648, section 4) of a string whose
  code units are all below 256; \<^verbatim>\<open>atob\<close> is the standard's forgiving decoder, which
  drops ASCII whitespace, accepts padded and unpadded input and throws
  \<^verbatim>\<open>InvalidCharacterError\<close> on anything else. A \<open>char\<close> of HOL is one code unit
  below 256, which is all that \<^verbatim>\<open>String.fromCharCode\<close> of a byte produces and all that
  \<^verbatim>\<open>atob\<close> returns.
\<close>

definition b64_digit :: "nat \<Rightarrow> char" where
  "b64_digit n =
     (if n < 26 then char_of (65 + n)
      else if n < 52 then char_of (71 + n)
      else if n < 62 then char_of (n - 4)
      else if n = 62 then CHR ''+'' else CHR ''/'')"

definition b64_value :: "char \<Rightarrow> nat option" where
  "b64_value c =
     (let k = (of_char c :: nat) in
      if 65 \<le> k \<and> k \<le> 90 then Some (k - 65)
      else if 97 \<le> k \<and> k \<le> 122 then Some (k - 71)
      else if 48 \<le> k \<and> k \<le> 57 then Some (k + 4)
      else if k = 43 then Some 62
      else if k = 47 then Some 63
      else None)"

text \<open>Three bytes make four 6-bit digits; a last group of one or two bytes makes two or three.\<close>

fun sextets :: "nat list \<Rightarrow> nat list" where
  "sextets (a # b # c # rest) =
     [a div 4, (a mod 4) * 16 + b div 16, (b mod 16) * 4 + c div 64, c mod 64] @ sextets rest"
| "sextets [a, b] = [a div 4, (a mod 4) * 16 + b div 16, (b mod 16) * 4]"
| "sextets [a] = [a div 4, (a mod 4) * 16]"
| "sextets [] = []"

definition btoa :: "string \<Rightarrow> string" where
  "btoa binary =
     map b64_digit (sextets (map of_char binary))
       @ replicate ((3 - length binary mod 3) mod 3) (CHR ''='')"

definition ascii_whitespace :: "char \<Rightarrow> bool" where
  "ascii_whitespace c = ((of_char c :: nat) \<in> {9, 10, 12, 13, 32})"

text \<open>Only when the length is a multiple of four are one or two trailing \<open>=\<close> removed.\<close>

definition strip_padding :: "string \<Rightarrow> string" where
  "strip_padding d =
     (if length d mod 4 = 0 then
        (case rev d of
           p # q # r \<Rightarrow>
             if p = CHR ''='' \<and> q = CHR ''='' then rev r
             else if p = CHR ''='' then rev (q # r) else d
         | _ \<Rightarrow> d)
      else d)"

text \<open>
  Four digits make three bytes; of a last group of two or three digits the surplus low
  bits are discarded.
\<close>

fun octets :: "nat list \<Rightarrow> nat list" where
  "octets (a # b # c # d # rest) =
     [a * 4 + b div 16, (b mod 16) * 16 + c div 4, (c mod 4) * 64 + d] @ octets rest"
| "octets [a, b, c] = [a * 4 + b div 16, (b mod 16) * 16 + c div 4]"
| "octets [a, b] = [a * 4 + b div 16]"
| "octets _ = []"

fun digit_values :: "string \<Rightarrow> nat list option" where
  "digit_values [] = Some []"
| "digit_values (c # cs) =
     (case b64_value c of
        None \<Rightarrow> None
      | Some v \<Rightarrow> (case digit_values cs of None \<Rightarrow> None | Some vs \<Rightarrow> Some (v # vs)))"

definition atob :: "string \<Rightarrow> js_error + string" where
  "atob base64 =
     (let d = strip_padding (filter (\<lambda>c. \<not> ascii_whitespace c) base64) in
      if length d mod 4 = 1 then Inl InvalidCharacterError
      else (case digit_values d of
              None \<Rightarrow> Inl InvalidCharacterError
            | Some vs \<Rightarrow> Inr (map char_of (octets vs))))"

subsection \<open>encode and decode\<close>

text \<open>
  \<^verbatim>\<open>encode\<close> appends \<^verbatim>\<open>String.fromCharCode(bytes[i])\<close> for every byte and calls
  \<^verbatim>\<open>btoa\<close>; \<^verbatim>\<open>decode\<close> calls \<^verbatim>\<open>atob\<close> and stores \<^verbatim>\<open>charCodeAt(i)\<close> of every
  character into a fresh \<^verbatim>\<open>Uint8Array\<close>.
\<close>

definition fromCharCode :: "byte \<Rightarrow> char" where
  "fromCharCode b = char_of (unat b)"

definition charCodeAt :: "char \<Rightarrow> byte" where
  "charCodeAt c = word_of_nat (of_char c)"

definition encode :: "byte list \<Rightarrow> string" where
  "encode bytes = btoa (map fromCharCode bytes)"

definition decode :: "string \<Rightarrow> js_error + byte list" where
  "decode base64 =
     (case atob base64 of
        Inl e \<Rightarrow> Inl e
      | Inr binaryString \<Rightarrow> Inr (map charCodeAt binaryString))"

subsection \<open>Typed-array views\<close>

text \<open>
  \<^verbatim>\<open>new Uint8Array(int16.buffer)\<close> reads the samples' buffer byte by byte, and
  \<^verbatim>\<open>new Int16Array(data.buffer)\<close> reads a byte buffer sample by sample, both in the
  platform's byte order, which is little-endian on every platform the browsers run on.
  The \<^verbatim>\<open>Int16Array\<close> constructor throws \<^verbatim>\<open>RangeError\<close> when the buffer's byte length
  is odd. The buffer of the array that \<^verbatim>\<open>decode\<close> returns holds exactly its bytes.
\<close>

definition Uint8Array_of :: "int16 list \<Rightarrow> byte list" where
  "Uint8Array_of samples = concat (map (\<lambda>w. [ucast w, ucast (drop_bit 8 w)]) samples)"

fun int16_pairs :: "byte list \<Rightarrow> int16 list" where
  "int16_pairs (lo # hi # rest) = (ucast lo OR push_bit 8 (ucast hi)) # int16_pairs rest"
| "int16_pairs _ = []"

definition Int16Array_of :: "byte list \<Rightarrow> js_error + int16 list" where
  "Int16Array_of data =
     (if odd (length data) then Inl RangeError else Inr (int16_pairs data))"

subsection \<open>decodeAudioData\<close>

text \<open>
  An \<^verbatim>\<open>AudioBuffer\<close> holds one \<^verbatim>\<open>Float32Array\<close> per channel. The samples written here are
  16-bit integers divided by \<open>2 ^ 15\<close>, which a 32-bit float holds without rounding, so a
  sample is a \<open>real\<close>.

  \<^verbatim>\<open>createBuffer\<close> belongs to the platform (Web Audio): it throws \<^verbatim>\<open>NotSupportedError\<close>
  when the number of channels or the number of frames is zero, and returns a zeroed buffer
  otherwise. Its frame count is an \<^verbatim>\<open>unsigned long\<close>: the quotient
  \<^verbatim>\<open>dataInt16.length / numChannels\<close> is cut to its integral part on the way in. The upper
  limits of an implementation (channels, rate, memory) are not modelled; the component asks
  for one channel at 24000 Hz.
\<close>

record audio_buffer =
  channelData :: "real list list"
  frames :: nat
  sampleRate :: nat

definition duration :: "audio_buffer \<Rightarrow> real" where
  "duration b = real (frames b) / real (sampleRate b)"

definition createBuffer :: "nat \<Rightarrow> nat \<Rightarrow> nat \<Rightarrow> js_error + audio_buffer" where
  "createBuffer numberOfChannels len rate =
     (if numberOfChannels = 0 \<or> len = 0 then Inl NotSupportedError
      else Inr \<lparr>channelData = replicate numberOfChannels (replicate len 0),
                frames = len, sampleRate = rate\<rparr>)"

text \<open>
  The two loops of \<^verbatim>\<open>decodeAudioData\<close> write \<^verbatim>\<open>dataInt16[i * numChannels + channel] / 32768.0\<close>
  at index \<open>i\<close> of every channel. With a fractional \<^verbatim>\<open>frameCount\<close> the inner loop runs
  one index past the buffer; a typed array ignores that write, so the frames written are
  those of the buffer, and for them the index read lies inside \<^verbatim>\<open>dataInt16\<close>.
\<close>

definition decodeAudioData :: "byte list \<Rightarrow> nat \<Rightarrow> nat \<Rightarrow> js_error + audio_buffer" where
  "decodeAudioData data rate numChannels =
     (case Int16Array_of data of
        Inl e \<Rightarrow> Inl e
      | Inr dataInt16 \<Rightarrow>
          (case createBuffer numChannels (length dataInt16 div numChannels) rate of
             Inl e \<Rightarrow> Inl e
           | Inr buffer \<Rightarrow>
               Inr (buffer\<lparr>channelData :=
                  map (\<lambda>channel.
                         map (\<lambda>i. real_of_int (sint (dataInt16 ! (i * numChannels + channel))) / 32768)
                           [0..<frames buffer])
                      [0..<numChannels]\<rparr>)))"

text \<open>The call of line 166: \<^verbatim>\<open>decodeAudioData(decode(base64Audio), outputCtx, 24000, 1)\<close>.\<close>

definition decode_chunk :: "string \<Rightarrow> nat \<Rightarrow> nat \<Rightarrow> js_error + audio_buffer" where
  "decode_chunk base64Audio rate numChannels =
     (case decode base64Audio of
        Inl e \<Rightarrow> Inl e
      | Inr data \<Rightarrow> decodeAudioData data rate numChannels)"

subsection \<open>Outbound samples\<close>

text \<open>
  \<^verbatim>\<open>int16[i] = inputData[i] * 32768\<close> stores a number into an \<^verbatim>\<open>Int16Array\<close>: the number is
  cut towards zero and taken modulo \<open>2 ^ 16\<close>. The product with \<open>2 ^ 15\<close> is exact in
  floating point, so the input sample, a finite number, is a \<open>real\<close> here too.
\<close>

definition ToInt16 :: "real \<Rightarrow> int16" where
  "ToInt16 x = word_of_int (if 0 \<le> x then \<lfloor>x\<rfloor> else \<lceil>x\<rceil>)"

definition scale_sample :: "real \<Rightarrow> int16" where
  "scale_sample x = ToInt16 (x * 32768)"

record blob =
  data :: string
  mimeType :: string

definition pcmBlob :: "real list \<Rightarrow> blob" where
  "pcmBlob inputData =
     \<lparr>data = encode (Uint8Array_of (map scale_sample inputData)),
      mimeType = ''audio/pcm;rate=16000''\<rparr>"

section \<open>The session component\<close>

text \<open>
  The component's React state (\<open>isActive\<close>, \<open>isConnecting\<close>, \<open>transcription\<close>,
  \<open>errorMsg\<close>) and its refs are the fields of \<open>state\<close>. A ref holds \<^verbatim>\<open>null\<close>
  (\<open>None\<close>) or names the object it holds: \<open>sessionPromiseRef\<close> the promise,
  \<open>streamRef\<close> the microphone stream, \<open>audioContextsRef\<close> the pair of audio
  contexts, each numbered in the order of its creation. The closures of one
  \<^verbatim>\<open>toggleSession\<close> call keep their own \<^verbatim>\<open>sessionPromise\<close>, whatever the ref holds
  later.

  The rest of \<open>state\<close> is the environment the component acts on: the state of every
  promise that \<^verbatim>\<open>ai.live.connect\<close> has returned, the reactions waiting on a pending
  promise, and the log of calls made to the outside: what is acquired, what is released,
  what is sent, what is written to the console, and the calls of \<^verbatim>\<open>cleanup\<close> itself.

  Every handler is run to its end before the next one starts, and it reads the current
  React state. An \<^verbatim>\<open>await\<close> of the pending session promise suspends \<^verbatim>\<open>cleanup\<close>
  until the promise settles, and that is the one suspension the model has. An
  \<^verbatim>\<open>await\<close> of a settled promise, or of \<^verbatim>\<open>close\<close> and \<^verbatim>\<open>resume\<close> of an audio
  context, is taken as immediate, though the code yields there: \<open>cleanup\<close> below is
  the run of \<^verbatim>\<open>cleanup\<close> with no other handler in between. Two calls of
  \<^verbatim>\<open>cleanup\<close> that overlap, the second starting while the first is past a null
  check and before the assignment of \<^verbatim>\<open>null\<close> that follows its \<^verbatim>\<open>await\<close>, are
  not represented.
\<close>

datatype promise_state = Pending | Fulfilled | Rejected

datatype reaction =
    SendInput blob bool
  | CleanupResume

datatype call =
    Connect nat
  | SessionClose nat
  | SendRealtimeInput nat blob
  | GetUserMedia nat
  | TracksStop nat
  | ContextsCreate nat
  | InputClose nat
  | OutputClose nat
  | CaptureStart
  | ConsoleError
  | ConsoleDebug
  | SourceStart nat real
  | SourceStop nat
  | OpenSelectKey
  | CleanupCall

record source =
  sid :: nat
  startAt :: real
  buffer :: audio_buffer

record state =
  isActive :: bool
  isConnecting :: bool
  transcription :: string
  errorMsg :: "string option"
  sessionPromiseRef :: "nat option"
  audioContextsRef :: "nat option"
  streamRef :: "nat option"
  nextStartTimeRef :: real
  sourcesRef :: "source list"
  sourceCount :: nat
  streamCount :: nat
  contextCount :: nat
  promises :: "promise_state list"
  reactions :: "(nat \<times> reaction) list"
  calls :: "call list"

definition initial :: state where
  "initial =
     \<lparr>isActive = False, isConnecting = False, transcription = [], errorMsg = None,
      sessionPromiseRef = None, audioContextsRef = None, streamRef = None,
      nextStartTimeRef = 0, sourcesRef = [], sourceCount = 0,
      streamCount = 0, contextCount = 0,
      promises = [], reactions = [], calls = []\<rparr>"

definition promise_of :: "state \<Rightarrow> nat \<Rightarrow> promise_state" where
  "promise_of s p = (if p < length (promises s) then promises s ! p else Pending)"

subsection \<open>cleanup\<close>

text \<open>
  Lines 79 to 83 of \<^verbatim>\<open>cleanup\<close> and lines 182 to 186 of \<^verbatim>\<open>onmessage\<close> are the same
  statements: stop every registered source (a failure of \<^verbatim>\<open>stop\<close> is caught), clear the
  set, put the cursor back to 0.
\<close>

definition flush :: "state \<Rightarrow> state" where
  "flush s =
     s\<lparr>calls := calls s @ map (\<lambda>x. SourceStop (sid x)) (sourcesRef s),
       sourcesRef := [],
       nextStartTimeRef := 0\<rparr>"

text \<open>Lines 68 to 83: the microphone tracks, the two audio contexts, the sources.\<close>

definition cleanup_devices :: "state \<Rightarrow> state" where
  "cleanup_devices s =
     (let s1 = (case streamRef s of
                  None \<Rightarrow> s
                | Some i \<Rightarrow> s\<lparr>calls := calls s @ [TracksStop i], streamRef := None\<rparr>);
          s2 = (case audioContextsRef s1 of
                  None \<Rightarrow> s1
                | Some j \<Rightarrow>
                    s1\<lparr>calls := calls s1 @ [InputClose j, OutputClose j],
                       audioContextsRef := None\<rparr>)
      in flush s2)"

text \<open>
  Lines 62 to 66, from the point where the awaited promise \<open>p\<close> has settled: a fulfilled
  promise gives the session, which is closed; a rejected one throws into the empty
  \<^verbatim>\<open>catch\<close>. Then the ref is cleared, whatever it holds by now.
\<close>

definition cleanup_resume :: "nat \<Rightarrow> state \<Rightarrow> state" where
  "cleanup_resume p s =
     cleanup_devices
       ((if promise_of s p = Fulfilled then s\<lparr>calls := calls s @ [SessionClose p]\<rparr> else s)
          \<lparr>sessionPromiseRef := None\<rparr>)"

definition cleanup :: "state \<Rightarrow> state" where
  "cleanup s =
     (let s0 = s\<lparr>calls := calls s @ [CleanupCall], isActive := False, isConnecting := False\<rparr> in
      case sessionPromiseRef s0 of
        None \<Rightarrow> cleanup_devices s0
      | Some p \<Rightarrow>
          if promise_of s0 p = Pending
          then s0\<lparr>reactions := reactions s0 @ [(p, CleanupResume)]\<rparr>
          else cleanup_resume p s0)"

text \<open>
  The same run cut at the first \<^verbatim>\<open>await\<close> that \<^verbatim>\<open>cleanup\<close> reaches: what it does
  before it yields for the first time, and the rest. With a session promise in the ref
  the first \<^verbatim>\<open>await\<close> is that of the promise; with none, it is that of
  \<^verbatim>\<open>input.close()\<close>, after the call; with no contexts either there is no \<^verbatim>\<open>await\<close>
  and nothing is left to do. A caller that does not await \<^verbatim>\<open>cleanup\<close> goes on between
  the two parts.
\<close>

definition cleanup_begin :: "state \<Rightarrow> state" where
  "cleanup_begin s =
     (let s0 = s\<lparr>calls := calls s @ [CleanupCall], isActive := False, isConnecting := False\<rparr> in
      case sessionPromiseRef s0 of
        Some p \<Rightarrow> s0
      | None \<Rightarrow>
          (let s1 = (case streamRef s0 of
                       None \<Rightarrow> s0
                     | Some i \<Rightarrow> s0\<lparr>calls := calls s0 @ [TracksStop i], streamRef := None\<rparr>)
           in case audioContextsRef s1 of
                None \<Rightarrow> flush s1
              | Some j \<Rightarrow> s1\<lparr>calls := calls s1 @ [InputClose j]\<rparr>))"

definition cleanup_end :: "state \<Rightarrow> state" where
  "cleanup_end s =
     (case sessionPromiseRef s of
        Some p \<Rightarrow>
          if promise_of s p = Pending
          then s\<lparr>reactions := reactions s @ [(p, CleanupResume)]\<rparr>
          else cleanup_resume p s
      | None \<Rightarrow>
          (case audioContextsRef s of
             None \<Rightarrow> s
           | Some j \<Rightarrow>
               flush (s\<lparr>calls := calls s @ [OutputClose j], audioContextsRef := None\<rparr>)))"

subsection \<open>toggleSession\<close>

text \<open>
  \<^verbatim>\<open>healthAI.handleError\<close> lives in \<^verbatim>\<open>geminiService\<close>; it is a parameter \<open>handleError\<close>
  that turns what was thrown into a message and an error type.

  What the start of a session meets outside the component is \<open>start_env\<close>: the first
  statement of the \<^verbatim>\<open>try\<close> block that throws, if one does, and the answer of
  \<^verbatim>\<open>hasSelectedApiKey\<close>. A stream or a pair of contexts that is acquired is logged and
  takes the place of what the ref held. The \<^verbatim>\<open>catch\<close> writes to the console, sets the
  message and calls \<^verbatim>\<open>cleanup\<close>.
\<close>

record ai_error =
  message :: string
  etype :: string

datatype 'e start_env =
    KeyCheckThrows 'e
  | AcquireThrows bool 'e
  | ContextThrows bool 'e
  | ResumeThrows bool 'e
  | Connects bool

definition select_key :: "bool \<Rightarrow> state \<Rightarrow> state" where
  "select_key hasKey s = (if hasKey then s else s\<lparr>calls := calls s @ [OpenSelectKey]\<rparr>)"

definition getUserMedia :: "state \<Rightarrow> state" where
  "getUserMedia s =
     s\<lparr>calls := calls s @ [GetUserMedia (streamCount s)],
       streamRef := Some (streamCount s),
       streamCount := Suc (streamCount s)\<rparr>"

definition create_contexts :: "state \<Rightarrow> state" where
  "create_contexts s =
     s\<lparr>calls := calls s @ [ContextsCreate (contextCount s)],
       audioContextsRef := Some (contextCount s),
       contextCount := Suc (contextCount s)\<rparr>"

definition start_failed :: "('e \<Rightarrow> ai_error) \<Rightarrow> 'e \<Rightarrow> state \<Rightarrow> state" where
  "start_failed handleError err s =
     cleanup (s\<lparr>calls := calls s @ [ConsoleError],
                errorMsg := Some (message (handleError err))\<rparr>)"

fun start :: "('e \<Rightarrow> ai_error) \<Rightarrow> 'e start_env \<Rightarrow> state \<Rightarrow> state" where
  "start handleError (KeyCheckThrows err) s = start_failed handleError err s"
| "start handleError (AcquireThrows hasKey err) s =
     start_failed handleError err (select_key hasKey s)"
| "start handleError (ContextThrows hasKey err) s =
     start_failed handleError err (getUserMedia (select_key hasKey s))"
| "start handleError (ResumeThrows hasKey err) s =
     start_failed handleError err (create_contexts (getUserMedia (select_key hasKey s)))"
| "start handleError (Connects hasKey) s =
     (let s1 = create_contexts (getUserMedia (select_key hasKey s));
          p = length (promises s1)
      in s1\<lparr>promises := promises s1 @ [Pending],
             calls := calls s1 @ [Connect p],
             sessionPromiseRef := Some p\<rparr>)"

definition toggleSession :: "('e \<Rightarrow> ai_error) \<Rightarrow> 'e start_env \<Rightarrow> state \<Rightarrow> state" where
  "toggleSession handleError env s =
     (if isActive s \<or> isConnecting s then cleanup s
      else start handleError env
             (s\<lparr>isConnecting := True, errorMsg := None, transcription := []\<rparr>))"

subsection \<open>The callbacks of the connection\<close>

definition onopen :: "state \<Rightarrow> state" where
  "onopen s = s\<lparr>isConnecting := False, isActive := True, calls := calls s @ [CaptureStart]\<rparr>"

text \<open>
  \<^verbatim>\<open>onaudioprocess\<close> chains \<^verbatim>\<open>then\<close> and \<^verbatim>\<open>catch\<close> on the session promise \<open>p\<close> of its
  closure. On a pending promise the chain waits as a reaction; on a fulfilled one the
  \<^verbatim>\<open>then\<close> callback calls \<^verbatim>\<open>sendRealtimeInput\<close>, and \<^verbatim>\<open>cleanup\<close> runs if that call throws
  (\<open>sendThrows\<close>, decided by the session); on a rejected one \<^verbatim>\<open>cleanup\<close> runs.
\<close>

fun run_reaction :: "nat \<Rightarrow> reaction \<Rightarrow> state \<Rightarrow> state" where
  "run_reaction p (SendInput media sendThrows) s =
     (case promise_of s p of
        Pending \<Rightarrow> s\<lparr>reactions := reactions s @ [(p, SendInput media sendThrows)]\<rparr>
      | Fulfilled \<Rightarrow>
          if sendThrows then cleanup s else s\<lparr>calls := calls s @ [SendRealtimeInput p media]\<rparr>
      | Rejected \<Rightarrow> cleanup s)"
| "run_reaction p CleanupResume s = cleanup_resume p s"

definition onaudioprocess :: "nat \<Rightarrow> real list \<Rightarrow> bool \<Rightarrow> state \<Rightarrow> state" where
  "onaudioprocess p inputData sendThrows s =
     run_reaction p (SendInput (pcmBlob inputData) sendThrows) s"

text \<open>The session promise \<open>p\<close> settles: its reactions run in the order they were chained.\<close>

definition settle :: "promise_state \<Rightarrow> nat \<Rightarrow> state \<Rightarrow> state" where
  "settle outcome p s =
     (if p < length (promises s) \<and> promises s ! p = Pending then
        foldl (\<lambda>s' r. run_reaction p r s')
          (s\<lparr>promises := (promises s)[p := outcome],
             reactions := filter (\<lambda>qr. fst qr \<noteq> p) (reactions s)\<rparr>)
          (map snd (filter (\<lambda>qr. fst qr = p) (reactions s)))
      else s)"

definition resolve :: "nat \<Rightarrow> state \<Rightarrow> state" where
  "resolve p s = settle Fulfilled p s"

definition reject :: "nat \<Rightarrow> state \<Rightarrow> state" where
  "reject p s = settle Rejected p s"

text \<open>
  A server message, as far as \<^verbatim>\<open>onmessage\<close> reads it: the output transcription (absent,
  or present with or without a text), the data of the first part of the model turn, and
  the interruption flag. \<^verbatim>\<open>prev + undefined\<close> appends the word \<^verbatim>\<open>undefined\<close>.
\<close>

record message =
  outputTranscription :: "string option option"
  inlineData :: "string option"
  interrupted :: bool

definition append_transcription :: "message \<Rightarrow> state \<Rightarrow> state" where
  "append_transcription m s =
     (case outputTranscription m of
        None \<Rightarrow> s
      | Some t \<Rightarrow>
          s\<lparr>transcription :=
               transcription s @ (case t of None \<Rightarrow> ''undefined'' | Some txt \<Rightarrow> txt)\<rparr>)"

definition handle_interrupted :: "message \<Rightarrow> state \<Rightarrow> state" where
  "handle_interrupted m s = (if interrupted m then flush s else s)"

text \<open>
  \<^verbatim>\<open>onmessage\<close> at device time \<open>currentTime\<close> (\<^verbatim>\<open>outputCtx.currentTime\<close>). It has no
  \<^verbatim>\<open>try\<close>: what \<^verbatim>\<open>decode\<close> or \<^verbatim>\<open>decodeAudioData\<close> throws ends the handler there and
  rejects the promise it returns, which is the second component of the result.
  An empty string is falsy, so an empty \<^verbatim>\<open>base64Audio\<close> is skipped.

  Times are seconds as \<open>real\<close> numbers; the rounding of the floating-point sum in
  \<^verbatim>\<open>nextStartTimeRef.current += audioBuffer.duration\<close> is not modelled.
\<close>

definition schedule :: "audio_buffer \<Rightarrow> state \<Rightarrow> state" where
  "schedule audioBuffer s =
     s\<lparr>calls := calls s @ [SourceStart (sourceCount s) (nextStartTimeRef s)],
       sourcesRef := sourcesRef s @
         [\<lparr>sid = sourceCount s, startAt = nextStartTimeRef s, buffer = audioBuffer\<rparr>],
       sourceCount := Suc (sourceCount s),
       nextStartTimeRef := nextStartTimeRef s + duration audioBuffer\<rparr>"

definition onmessage :: "real \<Rightarrow> message \<Rightarrow> state \<Rightarrow> state \<times> js_error option" where
  "onmessage currentTime m s =
     (let s1 = append_transcription m s in
      case inlineData m of
        None \<Rightarrow> (handle_interrupted m s1, None)
      | Some base64Audio \<Rightarrow>
          if base64Audio = [] then (handle_interrupted m s1, None)
          else
            (let s2 = s1\<lparr>nextStartTimeRef := max (nextStartTimeRef s1) currentTime\<rparr> in
             case decode_chunk base64Audio 24000 1 of
               Inl e \<Rightarrow> (s2, Some e)
             | Inr audioBuffer \<Rightarrow> (handle_interrupted m (schedule audioBuffer s2), None)))"

definition source_ended :: "nat \<Rightarrow> state \<Rightarrow> state" where
  "source_ended i s = s\<lparr>sourcesRef := filter (\<lambda>x. sid x \<noteq> i) (sourcesRef s)\<rparr>"

text \<open>
  \<^verbatim>\<open>onerror\<close> and \<^verbatim>\<open>onclose\<close> write to the console and call \<^verbatim>\<open>cleanup\<close> without
  awaiting it. \<^verbatim>\<open>onerror\<close> calls \<^verbatim>\<open>openSelectKey\<close> when \<^verbatim>\<open>cleanup\<close> has reached its
  first \<^verbatim>\<open>await\<close>, and the rest of \<^verbatim>\<open>cleanup\<close> follows.
\<close>

definition onerror :: "('e \<Rightarrow> ai_error) \<Rightarrow> 'e \<Rightarrow> state \<Rightarrow> state" where
  "onerror handleError e s =
     (let aiError = handleError e;
          s1 = cleanup_begin (s\<lparr>calls := calls s @ [ConsoleError],
                                errorMsg := Some (message aiError)\<rparr>);
          s2 = (if etype aiError = ''key'' then s1\<lparr>calls := calls s1 @ [OpenSelectKey]\<rparr>
                else s1)
      in cleanup_end s2)"

definition onclose :: "state \<Rightarrow> state" where
  "onclose s = cleanup (s\<lparr>calls := calls s @ [ConsoleDebug]\<rparr>)"

definition dismiss :: "state \<Rightarrow> state" where
  "dismiss s = s\<lparr>errorMsg := None\<rparr>"

text \<open>A run of inbound messages, each with the device time at which it is handled.\<close>

fun run_messages :: "(real \<times> message) list \<Rightarrow> state \<Rightarrow> state" where
  "run_messages [] s = s"
| "run_messages (tm # rest) s = run_messages rest (fst (onmessage (fst tm) (snd tm) s))"

text \<open>A run of capture blocks on the session promise \<open>p\<close>.\<close>

fun run_blocks :: "nat \<Rightarrow> (real list \<times> bool) list \<Rightarrow> state \<Rightarrow> state" where
  "run_blocks p [] s = s"
| "run_blocks p (b # rest) s = run_blocks p rest (onaudioprocess p (fst b) (snd b) s)"

text \<open>
  \<^verbatim>\<open>cleanup\<close> runs to its end at once unless the ref holds a promise that is still
  pending.
\<close>

definition cleanup_completes :: "state \<Rightarrow> bool" where
  "cleanup_completes s =
     (case sessionPromiseRef s of None \<Rightarrow> True | Some p \<Rightarrow> promise_of s p \<noteq> Pending)"

text \<open>What was handed to \<^verbatim>\<open>sendRealtimeInput\<close>, and how often \<^verbatim>\<open>cleanup\<close> was called.\<close>

fun is_send :: "call \<Rightarrow> bool" where
  "is_send (SendRealtimeInput p media) = True"
| "is_send _ = False"

fun is_connect :: "call \<Rightarrow> bool" where
  "is_connect (Connect p) = True"
| "is_connect _ = False"

definition sent :: "state \<Rightarrow> call list" where
  "sent s = filter is_send (calls s)"

definition connects :: "state \<Rightarrow> call list" where
  "connects s = filter is_connect (calls s)"

definition cleanup_count :: "state \<Rightarrow> nat" where
  "cleanup_count s = length (filter (\<lambda>c. c = CleanupCall) (calls s))"

text \<open>The state in which \<^verbatim>\<open>cleanup\<close> finds nothing to release.\<close>

definition torn_down :: "state \<Rightarrow> bool" where
  "torn_down s \<longleftrightarrow>
     \<not> isActive s \<and> \<not> isConnecting s \<and> sessionPromiseRef s = None \<and>
     streamRef s = None \<and> audioContextsRef s = None \<and> sourcesRef s = [] \<and>
     nextStartTimeRef s = 0"

section \<open>Properties of the codec\<close>

subsection \<open>Base64\<close>

lemma b64_value_digit: "n < 64 \<Longrightarrow> b64_value (b64_digit n) = Some n"
  by (auto simp: b64_value_def b64_digit_def Let_def)

lemma b64_digit_not_pad: "n < 64 \<Longrightarrow> b64_digit n \<noteq> CHR ''=''"
  using b64_value_digit[of n] by (auto simp: b64_value_def)

lemma b64_digit_not_ws: "n < 64 \<Longrightarrow> \<not> ascii_whitespace (b64_digit n)"
  using b64_value_digit[of n]
  by (auto simp: b64_value_def ascii_whitespace_def Let_def split: if_splits)

lemma sextets_bound: "\<forall>x\<in>set bs. x < 256 \<Longrightarrow> \<forall>v\<in>set (sextets bs). v < 64"
  by (induction bs rule: sextets.induct) auto

lemma octets_sextets: "\<forall>x\<in>set bs. x < 256 \<Longrightarrow> octets (sextets bs) = bs"
  by (induction bs rule: sextets.induct) auto

lemma Suc3_mod3: "Suc (Suc (Suc n)) mod 3 = n mod 3"
  by presburger

lemma Suc3_div3: "Suc (Suc (Suc n)) div 3 = Suc (n div 3)"
  by presburger

lemma length_sextets:
  "length (sextets bs) =
     4 * (length bs div 3) + (if length bs mod 3 = 0 then 0 else length bs mod 3 + 1)"
  by (induction bs rule: sextets.induct) (simp_all add: Suc3_mod3 Suc3_div3)

lemma length_sextets_padded: "(length (sextets bs) + (3 - length bs mod 3) mod 3) mod 4 = 0"
proof -
  consider "length bs mod 3 = 0" | "length bs mod 3 = 1" | "length bs mod 3 = 2" by linarith
  then show ?thesis by cases (simp_all add: length_sextets)
qed

lemma length_sextets_mod: "length (sextets bs) mod 4 \<noteq> 1"
proof -
  consider "length bs mod 3 = 0" | "length bs mod 3 = 1" | "length bs mod 3 = 2" by linarith
  then show ?thesis
  proof cases
    case 1
    then have "length (sextets bs) = 4 * (length bs div 3)" by (simp add: length_sextets)
    then show ?thesis by presburger
  next
    case 2
    then have "length (sextets bs) = 4 * (length bs div 3) + 2" by (simp add: length_sextets)
    then show ?thesis by presburger
  next
    case 3
    then have "length (sextets bs) = 4 * (length bs div 3) + 3" by (simp add: length_sextets)
    then show ?thesis by presburger
  qed
qed

lemma digit_values_digits:
  "\<forall>v\<in>set vs. v < 64 \<Longrightarrow> digit_values (map b64_digit vs) = Some vs"
  by (induction vs) (auto simp: b64_value_digit)

lemma strip_padding_padded:
  assumes "\<forall>c\<in>set xs. c \<noteq> CHR ''=''" and "k < 3" and "(length xs + k) mod 4 = 0"
  shows "strip_padding (xs @ replicate k (CHR ''='')) = xs"
proof -
  consider "k = 0" | "k = 1" | "k = 2" using assms(2) by linarith
  then show ?thesis
  proof cases
    case 1
    show ?thesis
    proof (cases "rev xs")
      case Nil
      then show ?thesis using 1 by (simp add: strip_padding_def)
    next
      case (Cons p r)
      then have "p \<in> set xs" by (metis list.set_intros(1) set_rev)
      then have "p \<noteq> CHR ''=''" using assms(1) by blast
      then show ?thesis using 1 Cons by (simp add: strip_padding_def split: list.splits)
    qed
  next
    case 2
    have "xs \<noteq> []" using assms(3) 2 by auto
    then obtain q r where qr: "rev xs = q # r" by (cases "rev xs") auto
    then have "q \<in> set xs" by (metis list.set_intros(1) set_rev)
    then have "q \<noteq> CHR ''=''" using assms(1) by blast
    then have "strip_padding (xs @ [CHR ''='']) = rev (q # r)"
      using qr assms(3) 2 by (simp add: strip_padding_def)
    moreover have "rev (q # r) = xs" using qr by (metis rev_rev_ident)
    ultimately show ?thesis using 2 by simp
  next
    case 3
    then show ?thesis using assms(3) by (simp add: strip_padding_def numeral_2_eq_2)
  qed
qed

lemma atob_btoa: "atob (btoa s) = Inr s"
proof -
  let ?bs = "map of_char s :: nat list"
  let ?ds = "map b64_digit (sextets ?bs)"
  let ?k = "(3 - length s mod 3) mod 3"
  have bs: "\<forall>x\<in>set ?bs. x < 256" by auto
  have vs: "\<forall>v\<in>set (sextets ?bs). v < 64" using sextets_bound[OF bs] .
  have nopad: "\<forall>c\<in>set ?ds. c \<noteq> CHR ''=''" using vs b64_digit_not_pad by auto
  have nows: "\<forall>c\<in>set ?ds. \<not> ascii_whitespace c" using vs b64_digit_not_ws by auto
  have pad_nows: "\<not> ascii_whitespace (CHR ''='')" by (simp add: ascii_whitespace_def)
  have f: "filter (\<lambda>c. \<not> ascii_whitespace c) (btoa s) = ?ds @ replicate ?k (CHR ''='')"
    unfolding btoa_def using nows pad_nows by (simp add: filter_id_conv)
  have len: "(length ?ds + ?k) mod 4 = 0" using length_sextets_padded[of ?bs] by simp
  have st: "strip_padding (?ds @ replicate ?k (CHR ''='')) = ?ds"
    by (rule strip_padding_padded[OF nopad _ len]) simp
  have l1: "length ?ds mod 4 \<noteq> 1" using length_sextets_mod[of ?bs] by simp
  have dv: "digit_values ?ds = Some (sextets ?bs)" using digit_values_digits[OF vs] .
  have oc: "map char_of (octets (sextets ?bs)) = s"
    using octets_sextets[OF bs] by (simp add: map_idI)
  show ?thesis
    unfolding atob_def f st Let_def using l1 dv oc by simp
qed

subsection \<open>Bytes and samples\<close>

lemma charCodeAt_fromCharCode: "charCodeAt (fromCharCode b) = b"
proof -
  have "unat b < 256" using unsigned_less[of b, where ?'a = nat] by simp
  then show ?thesis by (simp add: charCodeAt_def fromCharCode_def)
qed

lemma decode_encode: "decode (encode bytes) = Inr bytes"
  by (simp add: decode_def encode_def atob_btoa charCodeAt_fromCharCode map_idI)

lemma int16_of_bytes:
  "(ucast (ucast w :: byte) :: int16) OR push_bit 8 (ucast (ucast (drop_bit 8 w) :: byte)) = w"
  by (rule bit_word_eqI) (auto simp: bit_simps)

lemma int16_pairs_Uint8Array: "int16_pairs (Uint8Array_of s) = s"
  by (induction s) (auto simp: Uint8Array_of_def int16_of_bytes)

lemma length_Uint8Array_of: "length (Uint8Array_of s) = 2 * length s"
  by (induction s) (auto simp: Uint8Array_of_def)

lemma Int16Array_Uint8Array: "Int16Array_of (Uint8Array_of s) = Inr s"
  by (simp add: Int16Array_of_def length_Uint8Array_of int16_pairs_Uint8Array)

lemma decodeAudioData_samples:
  assumes "0 < n" and "n \<le> length s"
  shows "decodeAudioData (Uint8Array_of s) rate n =
           Inr \<lparr>channelData =
                  map (\<lambda>channel. map (\<lambda>i. real_of_int (sint (s ! (i * n + channel))) / 32768)
                                    [0..<length s div n]) [0..<n],
                frames = length s div n, sampleRate = rate\<rparr>"
proof -
  have "0 < length s div n" using assms by (simp add: div_greater_zero_iff)
  then show ?thesis
    using assms(1) by (simp add: decodeAudioData_def Int16Array_Uint8Array createBuffer_def)
qed

subsection \<open>Failures of decoding\<close>

lemma decodeAudioData_mono:
  "decodeAudioData bs rate 1 =
     (if odd (length bs) then Inl RangeError
      else if bs = [] then Inl NotSupportedError
      else Inr \<lparr>channelData =
                  [map (\<lambda>i. real_of_int (sint (int16_pairs bs ! i)) / 32768)
                     [0..<length (int16_pairs bs)]],
                frames = length (int16_pairs bs), sampleRate = rate\<rparr>)"
proof -
  have len: "length (int16_pairs xs) = length xs div 2" for xs :: "byte list"
    by (induction xs rule: int16_pairs.induct) simp_all
  have "bs \<noteq> [] \<Longrightarrow> even (length bs) \<Longrightarrow> 0 < length bs div 2"
    by (cases bs) (auto elim: evenE)
  then show ?thesis
    by (auto simp: decodeAudioData_def Int16Array_of_def createBuffer_def len)
qed

lemma length_int16_pairs: "length (int16_pairs bs) = length bs div 2"
  by (induction bs rule: int16_pairs.induct) simp_all

lemma decodeAudioData_frames:
  "decodeAudioData bs rate n =
     (if odd (length bs) then Inl RangeError
      else if n = 0 \<or> length bs div 2 < n then Inl NotSupportedError
      else Inr \<lparr>channelData =
                  map (\<lambda>channel.
                         map (\<lambda>i. real_of_int (sint (int16_pairs bs ! (i * n + channel))) / 32768)
                           [0..<length bs div 2 div n])
                      [0..<n],
                frames = length bs div 2 div n, sampleRate = rate\<rparr>)"
proof -
  have "length bs div 2 div n = 0 \<longleftrightarrow> length bs div 2 < n" if "0 < n"
    using that by (simp add: div_eq_0_iff)
  then show ?thesis
    by (auto simp: decodeAudioData_def Int16Array_of_def createBuffer_def length_int16_pairs)
qed

lemma encode_not_empty: "bytes \<noteq> [] \<Longrightarrow> encode bytes \<noteq> []"
proof
  assume "bytes \<noteq> []" and "encode bytes = []"
  then have "decode [] = Inr bytes" using decode_encode[of bytes] by simp
  then show False using \<open>bytes \<noteq> []\<close>
    by (simp add: decode_def atob_def strip_padding_def)
qed

subsection \<open>What the handlers leave alone\<close>

lemma duration_nonneg: "0 \<le> duration b"
  by (simp add: duration_def)

lemma nextStart_flush: "nextStartTimeRef (flush s) = 0"
  by (simp add: flush_def)

lemma nextStart_cleanup_devices: "nextStartTimeRef (cleanup_devices s) = 0"
  by (simp add: cleanup_devices_def Let_def nextStart_flush split: option.splits)

lemma sourcesRef_cleanup_devices: "sourcesRef (cleanup_devices s) = []"
  by (simp add: cleanup_devices_def Let_def flush_def split: option.splits)

lemma sourcesRef_cleanup_resume: "sourcesRef (cleanup_resume p s) = []"
  by (simp add: cleanup_resume_def sourcesRef_cleanup_devices)

lemma nextStart_cleanup_resume: "nextStartTimeRef (cleanup_resume p s) = 0"
  by (simp add: cleanup_resume_def nextStart_cleanup_devices)

lemma nextStart_append_transcription:
  "nextStartTimeRef (append_transcription m s) = nextStartTimeRef s"
  by (simp add: append_transcription_def split: option.splits)

lemma calls_append_transcription: "calls (append_transcription m s) = calls s"
  by (simp add: append_transcription_def split: option.splits)

lemma sourceCount_append_transcription:
  "sourceCount (append_transcription m s) = sourceCount s"
  by (simp add: append_transcription_def split: option.splits)

lemma onmessage_chunk:
  assumes "inlineData m = Some a" and "a \<noteq> []" and "decode_chunk a 24000 1 = Inr b"
  shows "onmessage t m s =
           (handle_interrupted m
              (schedule b ((append_transcription m s)
                 \<lparr>nextStartTimeRef := max (nextStartTimeRef s) t\<rparr>)), None)"
  using assms by (simp add: onmessage_def Let_def nextStart_append_transcription)

lemma onmessage_throws:
  assumes "inlineData m = Some a" and "a \<noteq> []" and "decode_chunk a 24000 1 = Inl e"
  shows "onmessage t m s =
           ((append_transcription m s)\<lparr>nextStartTimeRef := max (nextStartTimeRef s) t\<rparr>,
            Some e)"
  using assms by (simp add: onmessage_def Let_def nextStart_append_transcription)

lemma onmessage_cursor_mono:
  assumes "\<not> interrupted m"
  shows "nextStartTimeRef s \<le> nextStartTimeRef (fst (onmessage t m s))"
proof (cases "inlineData m")
  case None
  then show ?thesis
    using assms by (simp add: onmessage_def handle_interrupted_def nextStart_append_transcription)
next
  case (Some a)
  show ?thesis
  proof (cases "a = []")
    case True
    then show ?thesis
      using assms Some
      by (simp add: onmessage_def handle_interrupted_def nextStart_append_transcription)
  next
    case False
    show ?thesis
    proof (cases "decode_chunk a 24000 1")
      case (Inl e)
      then show ?thesis using onmessage_throws[OF Some False Inl] by simp
    next
      case (Inr b)
      have "nextStartTimeRef s \<le> max (nextStartTimeRef s) t + duration b"
        using duration_nonneg[of b] by linarith
      then show ?thesis
        using onmessage_chunk[OF Some False Inr] assms
        by (simp add: handle_interrupted_def schedule_def)
    qed
  qed
qed

lemma onmessage_interrupted:
  assumes "interrupted m" and "snd (onmessage t m s) = None"
  shows "nextStartTimeRef (fst (onmessage t m s)) = 0"
  using assms
  by (auto simp: onmessage_def Let_def handle_interrupted_def nextStart_flush
      split: option.splits if_splits sum.splits)

lemma promise_of_flags [simp]:
  "promise_of (s\<lparr>calls := c, isActive := a, isConnecting := b\<rparr>) p = promise_of s p"
  by (simp add: promise_of_def)

lemma nextStart_cleanup: "cleanup_completes s \<Longrightarrow> nextStartTimeRef (cleanup s) = 0"
  by (simp add: cleanup_def cleanup_completes_def Let_def
      nextStart_cleanup_devices nextStart_cleanup_resume split: option.splits)

subsection \<open>The calls of cleanup\<close>

lemma calls_cleanup_devices:
  "calls (cleanup_devices s) =
     calls s @ (case streamRef s of None \<Rightarrow> [] | Some i \<Rightarrow> [TracksStop i])
       @ (case audioContextsRef s of None \<Rightarrow> [] | Some j \<Rightarrow> [InputClose j, OutputClose j])
       @ map (\<lambda>x. SourceStop (sid x)) (sourcesRef s)"
  by (simp add: cleanup_devices_def flush_def Let_def split: option.splits)

lemma calls_cleanup_resume:
  "calls (cleanup_resume p s) =
     calls s @ (if promise_of s p = Fulfilled then [SessionClose p] else [])
       @ (case streamRef s of None \<Rightarrow> [] | Some i \<Rightarrow> [TracksStop i])
       @ (case audioContextsRef s of None \<Rightarrow> [] | Some j \<Rightarrow> [InputClose j, OutputClose j])
       @ map (\<lambda>x. SourceStop (sid x)) (sourcesRef s)"
  by (simp add: cleanup_resume_def calls_cleanup_devices)

lemma calls_cleanup:
  "calls (cleanup s) =
     calls s @ [CleanupCall]
       @ (if cleanup_completes s then
            (case sessionPromiseRef s of
               None \<Rightarrow> []
             | Some p \<Rightarrow> if promise_of s p = Fulfilled then [SessionClose p] else [])
            @ (case streamRef s of None \<Rightarrow> [] | Some i \<Rightarrow> [TracksStop i])
            @ (case audioContextsRef s of
                 None \<Rightarrow> []
               | Some j \<Rightarrow> [InputClose j, OutputClose j])
            @ map (\<lambda>x. SourceStop (sid x)) (sourcesRef s)
          else [])"
  by (simp add: cleanup_def cleanup_completes_def Let_def calls_cleanup_devices
      calls_cleanup_resume split: option.splits)

lemma promises_cleanup_devices: "promises (cleanup_devices s) = promises s"
  by (simp add: cleanup_devices_def flush_def Let_def split: option.splits)

lemma promises_cleanup_resume: "promises (cleanup_resume p s) = promises s"
  by (simp add: cleanup_resume_def promises_cleanup_devices)

lemma promises_cleanup: "promises (cleanup s) = promises s"
  by (simp add: cleanup_def Let_def promises_cleanup_devices promises_cleanup_resume
      split: option.splits)

lemma promises_run_reaction: "promises (run_reaction p r s) = promises s"
  by (cases r)
    (simp_all add: promises_cleanup promises_cleanup_resume split: promise_state.splits)

lemma promises_foldl_run_reaction:
  "promises (foldl (\<lambda>s' r. run_reaction p r s') s rs) = promises s"
  by (induction rs arbitrary: s) (simp_all add: promises_run_reaction)

lemma promise_of_cong: "promises s' = promises s \<Longrightarrow> promise_of s' p = promise_of s p"
  by (simp add: promise_of_def)

lemma sent_cleanup: "sent (cleanup s) = sent s"
  by (simp add: sent_def calls_cleanup split: option.splits)

lemma sent_cleanup_resume: "sent (cleanup_resume p s) = sent s"
  by (simp add: sent_def calls_cleanup_resume split: option.splits)

lemma cleanup_count_cleanup: "cleanup_count (cleanup s) = Suc (cleanup_count s)"
  by (simp add: cleanup_count_def calls_cleanup split: option.splits)

lemma sent_rejected_reaction:
  "promise_of s p = Rejected \<Longrightarrow> sent (run_reaction p r s) = sent s"
  by (cases r) (simp_all add: sent_cleanup sent_cleanup_resume)

lemma sent_rejected_reactions:
  "promise_of s p = Rejected \<Longrightarrow> sent (foldl (\<lambda>s' r. run_reaction p r s') s rs) = sent s"
proof (induction rs arbitrary: s)
  case Nil
  then show ?case by simp
next
  case (Cons r rs)
  have "promise_of (run_reaction p r s) p = Rejected"
    using Cons.prems promise_of_cong[OF promises_run_reaction] by simp
  then show ?case
    using Cons.IH[of "run_reaction p r s"] Cons.prems by (simp add: sent_rejected_reaction)
qed

lemma onaudioprocess_pending:
  "promise_of s p = Pending \<Longrightarrow>
     onaudioprocess p x th s = s\<lparr>reactions := reactions s @ [(p, SendInput (pcmBlob x) th)]\<rparr>"
  by (simp add: onaudioprocess_def)

lemma settle_queued:
  assumes "p < length (promises s)" and "promises s ! p = Pending"
  shows "settle outcome p (s\<lparr>reactions := reactions s @ [(p, r)]\<rparr>) =
           run_reaction p r (settle outcome p s)"
  using assms by (simp add: settle_def)

subsection \<open>cleanup run to its end, and cleanup called again\<close>

lemma torn_down_cleanup_devices:
  "\<not> isActive s \<Longrightarrow> \<not> isConnecting s \<Longrightarrow> sessionPromiseRef s = None \<Longrightarrow>
     torn_down (cleanup_devices s)"
  by (simp add: torn_down_def cleanup_devices_def flush_def Let_def split: option.splits)

lemma torn_down_cleanup: "cleanup_completes s \<Longrightarrow> torn_down (cleanup s)"
  by (auto simp: cleanup_def cleanup_completes_def cleanup_resume_def Let_def
      intro!: torn_down_cleanup_devices split: option.splits)

lemma onaudioprocess_rejected: "promise_of s p = Rejected \<Longrightarrow> onaudioprocess p x th s = cleanup s"
  by (simp add: onaudioprocess_def)

lemma promise_of_cleanup: "promise_of (cleanup s) p = promise_of s p"
  by (rule promise_of_cong[OF promises_cleanup])

lemma sent_run_blocks:
  "promise_of s p = Rejected \<Longrightarrow> sent (run_blocks p bs s) = sent s"
proof (induction bs arbitrary: s)
  case Nil
  then show ?case by simp
next
  case (Cons b bs)
  have "promise_of (cleanup s) p = Rejected" using Cons.prems by (simp add: promise_of_cleanup)
  then have "sent (run_blocks p bs (cleanup s)) = sent (cleanup s)"
    by (rule Cons.IH)
  then show ?case
    using Cons.prems by (simp add: onaudioprocess_rejected sent_cleanup)
qed

lemma cleanup_count_run_blocks:
  "promise_of s p = Rejected \<Longrightarrow> cleanup_count (run_blocks p bs s) = cleanup_count s + length bs"
proof (induction bs arbitrary: s)
  case Nil
  then show ?case by simp
next
  case (Cons b bs)
  have "promise_of (cleanup s) p = Rejected" using Cons.prems by (simp add: promise_of_cleanup)
  then have "cleanup_count (run_blocks p bs (cleanup s)) = cleanup_count (cleanup s) + length bs"
    by (rule Cons.IH)
  then show ?case
    using Cons.prems by (simp add: onaudioprocess_rejected cleanup_count_cleanup)
qed

subsection \<open>Scaling of samples\<close>

lemma scale_sample_in_range:
  assumes "- 1 \<le> x" and "x < 1"
  shows "sint (scale_sample x) = (if 0 \<le> x then \<lfloor>x * 32768\<rfloor> else \<lceil>x * 32768\<rceil>)"
proof -
  let ?k = "if 0 \<le> x * 32768 then \<lfloor>x * 32768\<rfloor> else \<lceil>x * 32768\<rceil>"
  have lo: "- 32768 \<le> ?k"
  proof -
    have "- 32768 \<le> x * 32768" using assms(1) by simp
    then have "(- 32768 :: int) \<le> \<lfloor>x * 32768\<rfloor>" and "(- 32768 :: int) \<le> \<lceil>x * 32768\<rceil>"
      by linarith+
    then show ?thesis by simp
  qed
  have hi: "?k < 32768"
  proof -
    have "x * 32768 < 32768" using assms(2) by simp
    then have "\<lfloor>x * 32768\<rfloor> < (32768 :: int)" by linarith
    moreover have "\<not> 0 \<le> x * 32768 \<Longrightarrow> \<lceil>x * 32768\<rceil> < (32768 :: int)" by linarith
    ultimately show ?thesis by simp
  qed
  have "sint (word_of_int ?k :: int16) = ?k"
    using lo hi by (simp add: sint_sbintrunc' signed_take_bit_int_eq_self)
  moreover have "(0 \<le> x * 32768) = (0 \<le> x)" by (simp add: zero_le_mult_iff)
  ultimately show ?thesis by (simp add: scale_sample_def ToInt16_def)
qed

lemma inbound_sample_scaling:
  "bs \<noteq> [] \<Longrightarrow> even (length bs) \<Longrightarrow>
     \<exists>b. decodeAudioData bs rate 1 = Inr b \<and>
         channelData b = [map (\<lambda>w. real_of_int (sint w) / 32768) (int16_pairs bs)]"
proof -
  have "map (\<lambda>i. real_of_int (sint (ws ! i)) / 32768) [0..<length ws] =
        map (\<lambda>w. real_of_int (sint w) / 32768) ws" for ws :: "int16 list"
    by (rule map_upt_eqI) simp_all
  then show "bs \<noteq> [] \<Longrightarrow> even (length bs) \<Longrightarrow> ?thesis"
    using decodeAudioData_mono[of bs rate] by simp
qed

subsection \<open>The frame of cleanup\<close>

lemma transcription_cleanup_devices: "transcription (cleanup_devices s) = transcription s"
  by (simp add: cleanup_devices_def flush_def Let_def split: option.splits)

lemma transcription_cleanup_resume: "transcription (cleanup_resume p s) = transcription s"
  by (simp add: cleanup_resume_def transcription_cleanup_devices)

lemma transcription_cleanup: "transcription (cleanup s) = transcription s"
  by (simp add: cleanup_def Let_def transcription_cleanup_devices transcription_cleanup_resume
      split: option.splits)

lemma errorMsg_cleanup_devices: "errorMsg (cleanup_devices s) = errorMsg s"
  by (simp add: cleanup_devices_def flush_def Let_def split: option.splits)

lemma errorMsg_cleanup_resume: "errorMsg (cleanup_resume p s) = errorMsg s"
  by (simp add: cleanup_resume_def errorMsg_cleanup_devices)

lemma errorMsg_cleanup: "errorMsg (cleanup s) = errorMsg s"
  by (simp add: cleanup_def Let_def errorMsg_cleanup_devices errorMsg_cleanup_resume
      split: option.splits)

lemma flags_cleanup_devices:
  "isActive (cleanup_devices s) = isActive s \<and> isConnecting (cleanup_devices s) = isConnecting s"
  by (simp add: cleanup_devices_def flush_def Let_def split: option.splits)

lemma flags_cleanup: "\<not> isActive (cleanup s) \<and> \<not> isConnecting (cleanup s)"
  by (simp add: cleanup_def Let_def cleanup_resume_def flags_cleanup_devices
      split: option.splits)

lemma connects_cleanup: "connects (cleanup s) = connects s"
  by (simp add: connects_def calls_cleanup split: option.splits)

lemma cleanup_completes_errorMsg [simp]:
  "cleanup_completes (s\<lparr>errorMsg := e\<rparr>) = cleanup_completes s"
  by (simp add: cleanup_completes_def promise_of_def split: option.splits)

lemma transcription_start:
  "transcription (start h env s) = transcription s"
  by (cases env)
    (simp_all add: start_failed_def transcription_cleanup select_key_def getUserMedia_def
      create_contexts_def Let_def)

lemma errorMsg_run_reaction: "errorMsg (run_reaction p r s) = errorMsg s"
  by (cases r) (simp_all add: errorMsg_cleanup errorMsg_cleanup_resume split: promise_state.splits)

lemma errorMsg_settle: "errorMsg (settle outcome p s) = errorMsg s"
proof -
  have "errorMsg (foldl (\<lambda>s' r. run_reaction p r s') s0 rs) = errorMsg s0" for s0 rs
    by (induction rs arbitrary: s0) (simp_all add: errorMsg_run_reaction)
  then show ?thesis by (simp add: settle_def)
qed

lemma transcription_run_reaction: "transcription (run_reaction p r s) = transcription s"
  by (cases r)
    (simp_all add: transcription_cleanup transcription_cleanup_resume split: promise_state.splits)

lemma transcription_settle: "transcription (settle outcome p s) = transcription s"
proof -
  have "transcription (foldl (\<lambda>s' r. run_reaction p r s') s0 rs) = transcription s0" for s0 rs
    by (induction rs arbitrary: s0) (simp_all add: transcription_run_reaction)
  then show ?thesis by (simp add: settle_def)
qed

subsection \<open>cleanup cut at its first await\<close>

lemma cleanup_split: "cleanup s = cleanup_end (cleanup_begin s)"
  by (simp add: cleanup_def cleanup_begin_def cleanup_end_def cleanup_devices_def flush_def
      promise_of_def Let_def split: option.splits)

lemma errorMsg_cleanup_begin: "errorMsg (cleanup_begin s) = errorMsg s"
  by (simp add: cleanup_begin_def flush_def Let_def split: option.splits)

lemma errorMsg_cleanup_end: "errorMsg (cleanup_end s) = errorMsg s"
  by (simp add: cleanup_end_def flush_def errorMsg_cleanup_resume split: option.splits)

lemma transcription_cleanup_begin: "transcription (cleanup_begin s) = transcription s"
  by (simp add: cleanup_begin_def flush_def Let_def split: option.splits)

lemma transcription_cleanup_end: "transcription (cleanup_end s) = transcription s"
  by (simp add: cleanup_end_def flush_def transcription_cleanup_resume split: option.splits)

lemma flags_cleanup_begin: "\<not> isActive (cleanup_begin s) \<and> \<not> isConnecting (cleanup_begin s)"
  by (simp add: cleanup_begin_def flush_def Let_def split: option.splits)

lemma flags_cleanup_end:
  "isActive (cleanup_end s) = isActive s \<and> isConnecting (cleanup_end s) = isConnecting s"
  by (simp add: cleanup_end_def flush_def cleanup_resume_def flags_cleanup_devices
      split: option.splits)

lemma errorMsg_onerror: "errorMsg (onerror h e s) = Some (message (h e))"
  by (simp add: onerror_def Let_def errorMsg_cleanup_end errorMsg_cleanup_begin)

lemma transcription_onerror: "transcription (onerror h e s) = transcription s"
  by (simp add: onerror_def Let_def transcription_cleanup_end transcription_cleanup_begin)

lemma flags_onerror: "\<not> isActive (onerror h e s) \<and> \<not> isConnecting (onerror h e s)"
  using flags_cleanup_begin[of "s\<lparr>calls := calls s @ [ConsoleError],
                                  errorMsg := Some (message (h e))\<rparr>"]
  by (simp add: onerror_def Let_def flags_cleanup_end)

subsection \<open>The guard of toggleSession\<close>

lemma toggleSession_live:
  "isActive s \<or> isConnecting s \<Longrightarrow>
     toggleSession h env s = cleanup s \<and>
     connects (toggleSession h env s) = connects s \<and>
     promises (toggleSession h env s) = promises s"
  by (simp add: toggleSession_def connects_cleanup promises_cleanup)

section \<open>The claims\<close>

text \<open>
  C1 (round trip of the codec). A sequence \<open>s\<close> of signed 16-bit samples is sent as
  \<open>encode (Uint8Array_of s)\<close>. Decoding that text gives back the bytes of \<open>s\<close>, whose
  16-bit view is \<open>s\<close> itself; and when \<open>s\<close> is not empty and its length is a multiple
  of the channel count \<open>n > 0\<close>, \<open>decode_chunk\<close> returns a buffer of \<open>n\<close> channels of
  \<open>length s div n\<close> frames in which sample \<open>k\<close> of \<open>s\<close> stands in channel \<open>k mod n\<close>
  at frame \<open>k div n\<close>, as the number \<open>sint (s ! k) / 32768\<close>.
\<close>

theorem decode_encode_samples:
  "decode (encode (Uint8Array_of s)) = Inr (Uint8Array_of s) \<and>
   Int16Array_of (Uint8Array_of s) = Inr s \<and>
   (s \<noteq> [] \<and> 0 < n \<and> n dvd length s \<longrightarrow>
      (\<exists>b. decode_chunk (encode (Uint8Array_of s)) rate n = Inr b \<and>
           frames b = length s div n \<and>
           length (channelData b) = n \<and>
           (\<forall>ch \<in> set (channelData b). length ch = length s div n) \<and>
           (\<forall>k < length s.
              channelData b ! (k mod n) ! (k div n) = real_of_int (sint (s ! k)) / 32768)))"
proof -
  have chunk: "\<exists>b. decode_chunk (encode (Uint8Array_of s)) rate n = Inr b \<and>
           frames b = length s div n \<and>
           length (channelData b) = n \<and>
           (\<forall>ch \<in> set (channelData b). length ch = length s div n) \<and>
           (\<forall>k < length s.
              channelData b ! (k mod n) ! (k div n) = real_of_int (sint (s ! k)) / 32768)"
    if ne: "s \<noteq> []" and pos: "0 < n" and dv: "n dvd length s"
  proof -
    let ?f = "length s div n"
    let ?b = "\<lparr>channelData =
                  map (\<lambda>channel. map (\<lambda>i. real_of_int (sint (s ! (i * n + channel))) / 32768)
                                    [0..<?f]) [0..<n],
                frames = ?f, sampleRate = rate\<rparr>"
    have le: "n \<le> length s" using ne dv by (auto intro: dvd_imp_le)
    have dc: "decode_chunk (encode (Uint8Array_of s)) rate n = Inr ?b"
      using decodeAudioData_samples[OF pos le]
      by (simp add: decode_chunk_def decode_encode)
    have idx: "channelData ?b ! (k mod n) ! (k div n) = real_of_int (sint (s ! k)) / 32768"
      if "k < length s" for k
    proof -
      have "k mod n < n" using pos by simp
      moreover have "k div n < ?f"
      proof -
        have "k < n * ?f" using that dv by simp
        then show ?thesis using pos by (simp add: less_mult_imp_div_less mult.commute)
      qed
      ultimately show ?thesis by simp
    qed
    have "\<forall>ch \<in> set (channelData ?b). length ch = ?f" by auto
    then show ?thesis
      using dc idx by (intro exI[of _ ?b]) simp
  qed
  show ?thesis
    using chunk decode_encode Int16Array_Uint8Array by blast
qed

theorem decode_encode_samples_witness:
  "Int16Array_of (Uint8Array_of [1, - 1, 32767, - 32768]) = Inr [1, - 1, 32767, - 32768] \<and>
   (\<exists>b. decode_chunk (encode (Uint8Array_of [1, - 1, 32767, - 32768])) 24000 2 = Inr b \<and>
        frames b = 2 \<and> length (channelData b) = 2 \<and>
        channelData b ! 0 ! 0 = 1 / 32768 \<and> channelData b ! 1 ! 0 = - 1 / 32768 \<and>
        channelData b ! 0 ! 1 = 32767 / 32768 \<and> channelData b ! 1 ! 1 = - 1)"
proof -
  let ?s = "[1, - 1, 32767, - 32768] :: int16 list"
  have h: "?s \<noteq> [] \<and> (0 :: nat) < 2 \<and> (2 :: nat) dvd length ?s" by simp
  from decode_encode_samples[of ?s 2 24000] h
  obtain b where b: "decode_chunk (encode (Uint8Array_of ?s)) 24000 2 = Inr b"
    "frames b = length ?s div 2" "length (channelData b) = 2"
    "\<forall>k < length ?s. channelData b ! (k mod 2) ! (k div 2) = real_of_int (sint (?s ! k)) / 32768"
    by blast
  have l: "length ?s = 4" by simp
  have q: "channelData b ! (k mod 2) ! (k div 2) = real_of_int (sint (?s ! k)) / 32768"
    if "k < 4" for k
    using b(4) that unfolding l by blast
  have "channelData b ! 0 ! 0 = 1 / 32768 \<and> channelData b ! 1 ! 0 = - 1 / 32768 \<and>
        channelData b ! 0 ! 1 = 32767 / 32768 \<and> channelData b ! 1 ! 1 = - 1"
    using q[of 0] q[of 1] q[of 2] q[of 3] by simp
  then show ?thesis
    using b(1-3) decode_encode_samples[of ?s 2 24000] by auto
qed

text \<open>
  The empty sequence is the exception: its length is a multiple of every channel count,
  and its wire form decodes to no bytes, for which \<^verbatim>\<open>createBuffer\<close> refuses a buffer of
  zero frames.
\<close>

theorem decode_encode_empty_counterexample:
  "1 dvd length ([] :: int16 list) \<and>
   decode_chunk (encode (Uint8Array_of [])) 24000 1 = Inl NotSupportedError"
  by (simp add: decode_chunk_def decode_encode Uint8Array_of_def decodeAudioData_def
      Int16Array_of_def createBuffer_def)

text \<open>
  C2 (what fails in decoding, and what the caller does then). There is no check of the
  byte length against \<open>2 * numChannels\<close> and no codec error of the component's own. At
  the caller's rate and for up to 32 channels, \<open>decodeAudioData\<close> throws exactly when
  the byte length is odd (\<^verbatim>\<open>RangeError\<close>, from the 16-bit view), or else when there is no
  channel or the bytes hold less than one frame, no bytes included
  (\<^verbatim>\<open>NotSupportedError\<close>, from \<^verbatim>\<open>createBuffer\<close>). Every other length decodes, to as
  many whole frames as it holds: samples past the last whole frame are left out. When
  the chunk of a message does not decode, \<open>onmessage\<close> ends with that exception after
  the transcript was appended and the cursor raised to the device time: no source is
  scheduled, no call is made, so nothing is written to the console and \<open>cleanup\<close>
  does not run, and the flags and refs of the session stay as they were.
\<close>

theorem decode_failure_modes:
  "(n \<le> 32 \<longrightarrow>
      decodeAudioData bs 24000 n =
        (if odd (length bs) then Inl RangeError
         else if n = 0 \<or> length bs div 2 < n then Inl NotSupportedError
         else Inr \<lparr>channelData =
                     map (\<lambda>channel.
                            map (\<lambda>i. real_of_int (sint (int16_pairs bs ! (i * n + channel)))
                                       / 32768)
                              [0..<length bs div 2 div n])
                         [0..<n],
                   frames = length bs div 2 div n, sampleRate = 24000\<rparr>)) \<and>
   (inlineData m = Some a \<and> a \<noteq> [] \<and> decode_chunk a 24000 1 = Inl e \<longrightarrow>
      onmessage t m s =
        ((append_transcription m s)\<lparr>nextStartTimeRef := max (nextStartTimeRef s) t\<rparr>, Some e) \<and>
      isActive (fst (onmessage t m s)) = isActive s \<and>
      isConnecting (fst (onmessage t m s)) = isConnecting s \<and>
      sessionPromiseRef (fst (onmessage t m s)) = sessionPromiseRef s \<and>
      streamRef (fst (onmessage t m s)) = streamRef s \<and>
      audioContextsRef (fst (onmessage t m s)) = audioContextsRef s \<and>
      sourcesRef (fst (onmessage t m s)) = sourcesRef s \<and>
      calls (fst (onmessage t m s)) = calls s)"
proof -
  have "onmessage t m s =
        ((append_transcription m s)\<lparr>nextStartTimeRef := max (nextStartTimeRef s) t\<rparr>, Some e) \<and>
      isActive (fst (onmessage t m s)) = isActive s \<and>
      isConnecting (fst (onmessage t m s)) = isConnecting s \<and>
      sessionPromiseRef (fst (onmessage t m s)) = sessionPromiseRef s \<and>
      streamRef (fst (onmessage t m s)) = streamRef s \<and>
      audioContextsRef (fst (onmessage t m s)) = audioContextsRef s \<and>
      sourcesRef (fst (onmessage t m s)) = sourcesRef s \<and>
      calls (fst (onmessage t m s)) = calls s"
    if "inlineData m = Some a" and "a \<noteq> []" and "decode_chunk a 24000 1 = Inl e"
    using onmessage_throws[OF that]
    by (simp add: append_transcription_def split: option.splits)
  then show ?thesis
    using decodeAudioData_frames[of bs 24000 n] by blast
qed

theorem decode_failure_modes_witness:
  "decodeAudioData [0, 0, 0] 24000 1 = Inl RangeError \<and>
   decodeAudioData [] 24000 1 = Inl NotSupportedError \<and>
   decodeAudioData [1, 0] 24000 2 = Inl NotSupportedError \<and>
   decodeAudioData [1, 0, 2, 0, 3, 0] 24000 2 =
     Inr \<lparr>channelData = [[1 / 32768], [2 / 32768]], frames = 1, sampleRate = 24000\<rparr> \<and>
   decode_chunk ''AAAA'' 24000 1 = Inl RangeError \<and>
   onmessage 5 \<lparr>outputTranscription = Some (Some ''hi''), inlineData = Some ''AAAA'',
                interrupted = True\<rparr>
     (initial\<lparr>isActive := True\<rparr>) =
     (initial\<lparr>isActive := True, transcription := ''hi'', nextStartTimeRef := 5\<rparr>,
      Some RangeError)"
proof -
  let ?m = "\<lparr>outputTranscription = Some (Some ''hi''), inlineData = Some ''AAAA'',
             interrupted = True\<rparr>"
  let ?s = "initial\<lparr>isActive := True\<rparr>"
  have le: "(1 :: nat) \<le> 32" "(2 :: nat) \<le> 32" by simp_all
  have a: "decodeAudioData [0, 0, 0] 24000 1 = Inl RangeError"
    using le(1) decode_failure_modes[of 1 "[0, 0, 0]" ?m "''AAAA''" RangeError 5 ?s] by simp
  have b: "decodeAudioData [] 24000 1 = Inl NotSupportedError"
    using le(1) decode_failure_modes[of 1 "[]" ?m "''AAAA''" RangeError 5 ?s] by simp
  have c: "decodeAudioData [1, 0] 24000 2 = Inl NotSupportedError"
    using le(2) decode_failure_modes[of 2 "[1, 0]" ?m "''AAAA''" RangeError 5 ?s] by simp
  have u: "[0..<2] = [0, Suc 0]" by (simp add: upt_rec)
  have d: "decodeAudioData [1, 0, 2, 0, 3, 0] 24000 2 =
     Inr \<lparr>channelData = [[1 / 32768], [2 / 32768]], frames = 1, sampleRate = 24000\<rparr>"
    using le(2) decode_failure_modes[of 2 "[1, 0, 2, 0, 3, 0]" ?m "''AAAA''" RangeError 5 ?s]
    by (simp add: u)
  have "decode ''AAAA'' = Inr [0, 0, 0]"
    by (simp add: decode_def atob_def strip_padding_def b64_value_def
        ascii_whitespace_def charCodeAt_def)
  then have f: "decode_chunk ''AAAA'' 24000 1 = Inl RangeError"
    using a by (simp add: decode_chunk_def)
  have "onmessage 5 ?m ?s =
     (initial\<lparr>isActive := True, transcription := ''hi'', nextStartTimeRef := 5\<rparr>,
      Some RangeError)"
    using f decode_failure_modes[of 1 "[]" ?m "''AAAA''" RangeError 5 ?s]
    by (simp add: append_transcription_def initial_def)
  then show ?thesis using a b c d f by blast
qed

text \<open>
  Six bytes for two channels are not a multiple of four, and decode: the third sample is
  left out. No bytes at all are a multiple of two, and do not decode.
\<close>

theorem decode_failure_modes_counterexample:
  "\<not> (2 * 2) dvd length [0, 0, 0, 0, 0, 0 :: byte] \<and>
   decodeAudioData [0, 0, 0, 0, 0, 0] 24000 2 =
     Inr \<lparr>channelData = [[0], [0]], frames = 1, sampleRate = 24000\<rparr> \<and>
   (2 * 1) dvd length ([] :: byte list) \<and>
   decodeAudioData [] 24000 1 = Inl NotSupportedError"
proof -
  have "[0..<2] = [0, Suc 0]" by (simp add: upt_rec)
  then have "decodeAudioData [0, 0, 0, 0, 0, 0] 24000 2 =
     Inr \<lparr>channelData = [[0], [0]], frames = 1, sampleRate = 24000\<rparr>"
    by (simp add: decodeAudioData_def Int16Array_of_def createBuffer_def)
  moreover have "\<not> (2 * 2) dvd length [0, 0, 0, 0, 0, 0 :: byte]"
    by (simp only: list.size) presburger
  moreover have "(2 * 1) dvd length ([] :: byte list)" by simp
  moreover have "decodeAudioData [] 24000 1 = Inl NotSupportedError"
    using decodeAudioData_mono[of "[]" 24000] by simp
  ultimately show ?thesis by blast
qed

text \<open>
  C3 (playback without gaps). A chunk that decodes to the buffer \<open>b1\<close> at device time
  \<open>t1\<close> is started at \<open>max nextStart t1\<close>, and the cursor moves on by the duration of
  \<open>b1\<close>. When the next chunk is handled at a device time \<open>t2\<close> that the cursor has not
  yet passed, its source is started where the first one ends, at the first start plus the
  duration of \<open>b1\<close>, whatever \<open>t2\<close> is.
\<close>

theorem gap_free_schedule:
  assumes "inlineData m1 = Some a1" and "a1 \<noteq> []" and "decode_chunk a1 24000 1 = Inr b1"
    and "inlineData m2 = Some a2" and "a2 \<noteq> []" and "decode_chunk a2 24000 1 = Inr b2"
    and "\<not> interrupted m1"
    and "t2 \<le> max (nextStartTimeRef s) t1 + duration b1"
  shows "calls (fst (onmessage t1 m1 s)) =
           calls s @ [SourceStart (sourceCount s) (max (nextStartTimeRef s) t1)] \<and>
         nextStartTimeRef (fst (onmessage t1 m1 s)) =
           max (nextStartTimeRef s) t1 + duration b1 \<and>
         (\<exists>stops. calls (fst (onmessage t2 m2 (fst (onmessage t1 m1 s)))) =
            calls (fst (onmessage t1 m1 s)) @
              SourceStart (Suc (sourceCount s)) (max (nextStartTimeRef s) t1 + duration b1)
                # stops)"
proof -
  let ?s1 = "fst (onmessage t1 m1 s)"
  have s1: "?s1 = schedule b1 ((append_transcription m1 s)
                     \<lparr>nextStartTimeRef := max (nextStartTimeRef s) t1\<rparr>)"
    using onmessage_chunk[OF assms(1-3)] assms(7) by (simp add: handle_interrupted_def)
  have c1: "calls ?s1 = calls s @ [SourceStart (sourceCount s) (max (nextStartTimeRef s) t1)]"
    by (simp add: s1 schedule_def calls_append_transcription sourceCount_append_transcription)
  have n1: "nextStartTimeRef ?s1 = max (nextStartTimeRef s) t1 + duration b1"
    by (simp add: s1 schedule_def)
  have k1: "sourceCount ?s1 = Suc (sourceCount s)"
    by (simp add: s1 schedule_def sourceCount_append_transcription)
  have m: "max (nextStartTimeRef ?s1) t2 = max (nextStartTimeRef s) t1 + duration b1"
    using assms(8) n1 by simp
  let ?s2 = "schedule b2 ((append_transcription m2 ?s1)
                     \<lparr>nextStartTimeRef := max (nextStartTimeRef ?s1) t2\<rparr>)"
  have c2: "calls ?s2 = calls ?s1 @
      [SourceStart (Suc (sourceCount s)) (max (nextStartTimeRef s) t1 + duration b1)]"
    by (simp add: schedule_def calls_append_transcription sourceCount_append_transcription k1 m)
  have "\<exists>stops. calls (handle_interrupted m2 ?s2) = calls ?s1 @
      SourceStart (Suc (sourceCount s)) (max (nextStartTimeRef s) t1 + duration b1) # stops"
    using c2 by (simp add: handle_interrupted_def flush_def)
  then have "\<exists>stops. calls (fst (onmessage t2 m2 ?s1)) = calls ?s1 @
      SourceStart (Suc (sourceCount s)) (max (nextStartTimeRef s) t1 + duration b1) # stops"
    using onmessage_chunk[OF assms(4-6), of t2 ?s1] by simp
  then show ?thesis using c1 n1 by blast
qed

text \<open>
  Two chunks of 2400 samples each, 100 ms at 24 kHz, handled 10 ms apart on a fresh
  session: the second starts at 1.1 s, not at 1.01 s.
\<close>

theorem gap_free_schedule_witness:
  "calls (fst (onmessage (101 / 100)
       \<lparr>outputTranscription = None,
         inlineData = Some (encode (Uint8Array_of (replicate 2400 0))),
         interrupted = False\<rparr>
       (fst (onmessage 1
          \<lparr>outputTranscription = None,
            inlineData = Some (encode (Uint8Array_of (replicate 2400 0))),
            interrupted = False\<rparr>
          initial)))) =
     [SourceStart 0 1, SourceStart 1 (11 / 10)]"
proof -
  let ?a = "encode (Uint8Array_of (replicate 2400 0))"
  let ?m = "\<lparr>outputTranscription = None, inlineData = Some ?a, interrupted = False\<rparr>"
  let ?b = "\<lparr>channelData =
                map (\<lambda>channel. map (\<lambda>i. real_of_int (sint (replicate 2400 (0 :: int16)
                                                  ! (i * 1 + channel))) / 32768)
                                  [0..<2400]) [0..<1],
              frames = 2400, sampleRate = 24000\<rparr>"
  have ne: "?a \<noteq> []"
    by (rule encode_not_empty) (simp add: Uint8Array_of_def)
  have dc: "decode_chunk ?a 24000 1 = Inr ?b"
    using decodeAudioData_samples[of 1 "replicate 2400 0" 24000]
    by (simp add: decode_chunk_def decode_encode)
  have i: "inlineData ?m = Some ?a" by simp
  have n: "\<not> interrupted ?m" by simp
  have t: "101 / 100 \<le> max (nextStartTimeRef initial) 1 + duration ?b"
    by (simp add: duration_def initial_def)
  have s1: "calls (fst (onmessage 1 ?m initial)) = [SourceStart 0 1]"
    using gap_free_schedule[OF i ne dc i ne dc n t] by (simp add: initial_def)
  obtain stops where s2: "calls (fst (onmessage (101 / 100) ?m (fst (onmessage 1 ?m initial)))) =
      calls (fst (onmessage 1 ?m initial)) @ SourceStart 1 (11 / 10) # stops"
    using gap_free_schedule[OF i ne dc i ne dc n t] by (auto simp: initial_def duration_def)
  have "fst (onmessage (101 / 100) ?m (fst (onmessage 1 ?m initial))) =
      schedule ?b ((append_transcription ?m (fst (onmessage 1 ?m initial)))
        \<lparr>nextStartTimeRef := max (nextStartTimeRef (fst (onmessage 1 ?m initial))) (101 / 100)\<rparr>)"
    using onmessage_chunk[OF i ne dc] by (simp add: handle_interrupted_def)
  then have "length (calls (fst (onmessage (101 / 100) ?m (fst (onmessage 1 ?m initial))))) = 2"
    using s1 by (simp add: schedule_def calls_append_transcription)
  then have "stops = []" using s1 s2 by simp
  then show ?thesis using s1 s2 by simp
qed

text \<open>
  C4 (the playback cursor). Over any run of messages none of which carries the
  interruption flag, the cursor does not decrease. After the flush of an interruption
  (the handler reached it: nothing was thrown before) and after the flush that ends
  \<open>cleanup\<close> (at once, or when the awaited promise has settled) the cursor is 0.
\<close>

theorem cursor_invariant:
  "((\<forall>tm \<in> set tms. \<not> interrupted (snd tm)) \<longrightarrow>
      nextStartTimeRef s \<le> nextStartTimeRef (run_messages tms s)) \<and>
   nextStartTimeRef (flush s) = 0 \<and>
   (interrupted m \<and> snd (onmessage t m s) = None \<longrightarrow>
      nextStartTimeRef (fst (onmessage t m s)) = 0) \<and>
   (cleanup_completes s \<longrightarrow> nextStartTimeRef (cleanup s) = 0) \<and>
   nextStartTimeRef (cleanup_resume p s) = 0"
proof -
  have "nextStartTimeRef s \<le> nextStartTimeRef (run_messages tms s)"
    if "\<forall>tm \<in> set tms. \<not> interrupted (snd tm)"
    using that
  proof (induction tms arbitrary: s)
    case Nil
    then show ?case by simp
  next
    case (Cons tm tms)
    have "nextStartTimeRef s \<le> nextStartTimeRef (fst (onmessage (fst tm) (snd tm) s))"
      using Cons.prems by (simp add: onmessage_cursor_mono)
    also have "\<dots> \<le> nextStartTimeRef (run_messages tms (fst (onmessage (fst tm) (snd tm) s)))"
      using Cons.IH Cons.prems by simp
    finally show ?case by simp
  qed
  then show ?thesis
    using onmessage_interrupted[of m t s]
    by (simp add: nextStart_flush nextStart_cleanup nextStart_cleanup_resume)
qed

theorem cursor_invariant_witness:
  "nextStartTimeRef (initial\<lparr>nextStartTimeRef := 3\<rparr>) \<le>
     nextStartTimeRef (run_messages
       [(1, \<lparr>outputTranscription = None, inlineData = Some ''AAA='', interrupted = False\<rparr>),
        (7, \<lparr>outputTranscription = None, inlineData = Some ''AAAA'', interrupted = False\<rparr>)]
       (initial\<lparr>nextStartTimeRef := 3\<rparr>)) \<and>
   nextStartTimeRef (fst (onmessage 7
       \<lparr>outputTranscription = None, inlineData = Some ''AAA='', interrupted = True\<rparr>
       (initial\<lparr>nextStartTimeRef := 3\<rparr>))) = 0 \<and>
   nextStartTimeRef (cleanup (initial\<lparr>nextStartTimeRef := 3\<rparr>)) = 0"
proof -
  let ?s = "initial\<lparr>nextStartTimeRef := 3\<rparr>"
  let ?m = "\<lparr>outputTranscription = None, inlineData = Some ''AAA='', interrupted = True\<rparr>"
  have "decode ''AAA='' = Inr [0, 0]"
    by (simp add: decode_def atob_def strip_padding_def b64_value_def
        ascii_whitespace_def charCodeAt_def)
  then have "\<exists>b. decode_chunk ''AAA='' 24000 1 = Inr b"
    using decodeAudioData_mono[of "[0, 0]" 24000] by (simp add: decode_chunk_def)
  then have ok: "snd (onmessage 7 ?m ?s) = None"
    by (auto simp: onmessage_def Let_def)
  have cc: "cleanup_completes ?s" by (simp add: cleanup_completes_def initial_def)
  show ?thesis
    using ok cc
      cursor_invariant[of
        "[(1, \<lparr>outputTranscription = None, inlineData = Some ''AAA='', interrupted = False\<rparr>),
          (7, \<lparr>outputTranscription = None, inlineData = Some ''AAAA'', interrupted = False\<rparr>)]"
        ?s ?m 7 0]
    by simp
qed

text \<open>
  C5 (a block captured before the connection is ready). The send of a block is chained
  on the session promise. While the promise is pending the packet waits as a reaction of
  the promise, and when the promise is fulfilled it is handed to \<^verbatim>\<open>sendRealtimeInput\<close>,
  after the packets chained before it. A packet is dropped, and \<open>cleanup\<close> runs, when
  the promise is or becomes rejected, or when \<^verbatim>\<open>sendRealtimeInput\<close> throws.
\<close>

theorem send_waits_for_promise:
  "(promise_of s p = Pending \<longrightarrow>
      onaudioprocess p x th s =
        s\<lparr>reactions := reactions s @ [(p, SendInput (pcmBlob x) th)]\<rparr>) \<and>
   (p < length (promises s) \<and> promises s ! p = Pending \<longrightarrow>
      calls (resolve p (onaudioprocess p x False s)) =
        calls (resolve p s) @ [SendRealtimeInput p (pcmBlob x)] \<and>
      sent (reject p (onaudioprocess p x th s)) = sent s) \<and>
   (promise_of s p = Fulfilled \<longrightarrow>
      onaudioprocess p x False s = s\<lparr>calls := calls s @ [SendRealtimeInput p (pcmBlob x)]\<rparr> \<and>
      onaudioprocess p x True s = cleanup s) \<and>
   (promise_of s p = Rejected \<longrightarrow> onaudioprocess p x th s = cleanup s) \<and>
   sent (cleanup s) = sent s"
proof -
  have pending: "calls (resolve p (onaudioprocess p x False s)) =
        calls (resolve p s) @ [SendRealtimeInput p (pcmBlob x)] \<and>
      sent (reject p (onaudioprocess p x th s)) = sent s"
    if lt: "p < length (promises s)" and pe: "promises s ! p = Pending"
  proof -
    have po: "promise_of s p = Pending" using lt pe by (simp add: promise_of_def)
    have ful: "promise_of (settle Fulfilled p s) p = Fulfilled"
      using lt pe
      by (simp add: settle_def promise_of_def promises_foldl_run_reaction)
    have "resolve p (onaudioprocess p x False s) =
            run_reaction p (SendInput (pcmBlob x) False) (settle Fulfilled p s)"
      using settle_queued[OF lt pe] by (simp add: resolve_def onaudioprocess_pending[OF po])
    then have a: "calls (resolve p (onaudioprocess p x False s)) =
        calls (resolve p s) @ [SendRealtimeInput p (pcmBlob x)]"
      using ful by (simp add: resolve_def)
    have rej: "promise_of (settle Rejected p s) p = Rejected"
      using lt pe
      by (simp add: settle_def promise_of_def promises_foldl_run_reaction)
    have base: "promise_of (s\<lparr>promises := (promises s)[p := Rejected],
                 reactions := filter (\<lambda>qr. fst qr \<noteq> p) (reactions s)\<rparr>) p = Rejected"
      using lt by (simp add: promise_of_def)
    have e1: "sent (settle Rejected p s) = sent s"
      using lt pe sent_rejected_reactions[OF base] by (simp add: settle_def sent_def)
    have e2: "reject p (onaudioprocess p x th s) =
            run_reaction p (SendInput (pcmBlob x) th) (settle Rejected p s)"
      using settle_queued[OF lt pe] by (simp add: reject_def onaudioprocess_pending[OF po])
    have "sent (reject p (onaudioprocess p x th s)) =
            sent (run_reaction p (SendInput (pcmBlob x) th) (settle Rejected p s))"
      by (simp only: e2)
    also have "\<dots> = sent (settle Rejected p s)"
      by (rule sent_rejected_reaction[OF rej])
    also have "\<dots> = sent s" by (rule e1)
    finally have b: "sent (reject p (onaudioprocess p x th s)) = sent s" .
    show ?thesis using a b by simp
  qed
  show ?thesis
    using pending by (simp add: onaudioprocess_pending sent_cleanup) (simp add: onaudioprocess_def)
qed

theorem send_waits_for_promise_witness:
  "promise_of (onopen (toggleSession (\<lambda>e :: nat. \<lparr>message = [], etype = []\<rparr>)
       (Connects True) initial)) 0 = Pending \<and>
   sent (resolve 0 (onaudioprocess 0 [0] False
     (onopen (toggleSession (\<lambda>e :: nat. \<lparr>message = [], etype = []\<rparr>)
        (Connects True) initial)))) = [SendRealtimeInput 0 (pcmBlob [0])] \<and>
   sent (reject 0 (onaudioprocess 0 [0] False
     (onopen (toggleSession (\<lambda>e :: nat. \<lparr>message = [], etype = []\<rparr>)
        (Connects True) initial)))) = [] \<and>
   sent (onaudioprocess 0 [0] False (resolve 0
     (onopen (toggleSession (\<lambda>e :: nat. \<lparr>message = [], etype = []\<rparr>)
        (Connects True) initial)))) = [SendRealtimeInput 0 (pcmBlob [0])] \<and>
   sent (onaudioprocess 0 [0] True (resolve 0
     (onopen (toggleSession (\<lambda>e :: nat. \<lparr>message = [], etype = []\<rparr>)
        (Connects True) initial)))) = [] \<and>
   sent (onaudioprocess 0 [0] False (reject 0
     (onopen (toggleSession (\<lambda>e :: nat. \<lparr>message = [], etype = []\<rparr>)
        (Connects True) initial)))) = []"
proof -
  let ?s = "onopen (toggleSession (\<lambda>e :: nat. \<lparr>message = [], etype = []\<rparr>)
       (Connects True) initial)"
  let ?s' = "initial\<lparr>isConnecting := False, isActive := True, streamRef := Some 0,
      audioContextsRef := Some 0, streamCount := 1, contextCount := 1, promises := [Pending],
      calls := [GetUserMedia 0, ContextsCreate 0, Connect 0, CaptureStart],
      sessionPromiseRef := Some 0\<rparr>"
  have s: "?s = ?s'"
    by (simp add: onopen_def toggleSession_def initial_def select_key_def getUserMedia_def
        create_contexts_def)
  have p: "promise_of ?s' 0 = Pending" by (simp add: promise_of_def)
  have l: "0 < length (promises ?s') \<and> promises ?s' ! 0 = Pending" by simp
  have r: "calls (resolve 0 ?s') = [GetUserMedia 0, ContextsCreate 0, Connect 0, CaptureStart]"
    by (simp add: resolve_def settle_def initial_def)
  have e: "sent ?s' = []" by (simp add: sent_def initial_def)
  have pending: "sent (resolve 0 (onaudioprocess 0 [0] False ?s')) =
          [SendRealtimeInput 0 (pcmBlob [0])] \<and>
        sent (reject 0 (onaudioprocess 0 [0] False ?s')) = []"
    using send_waits_for_promise[of ?s' 0 "[0]" False] l r e
    by (simp add: sent_def)
  have f: "promise_of (resolve 0 ?s') 0 = Fulfilled \<and> sent (resolve 0 ?s') = []"
    by (simp add: resolve_def settle_def initial_def promise_of_def sent_def)
  have fulfilled: "sent (onaudioprocess 0 [0] False (resolve 0 ?s')) =
          [SendRealtimeInput 0 (pcmBlob [0])] \<and>
        sent (onaudioprocess 0 [0] True (resolve 0 ?s')) = []"
    using send_waits_for_promise[of "resolve 0 ?s'" 0 "[0]" False] f
    by (simp add: sent_def)
  have j: "promise_of (reject 0 ?s') 0 = Rejected \<and> sent (reject 0 ?s') = []"
    by (simp add: reject_def settle_def initial_def promise_of_def sent_def)
  have rejected: "sent (onaudioprocess 0 [0] False (reject 0 ?s')) = []"
    using send_waits_for_promise[of "reject 0 ?s'" 0 "[0]" False] j by simp
  show ?thesis unfolding s using p pending fulfilled rejected by simp
qed

text \<open>
  A block captured while the promise of a fresh session is pending: nothing is sent
  yet, and the packet is sent when the promise is fulfilled.
\<close>

theorem send_waits_for_promise_counterexample:
  "promise_of (onopen (toggleSession (\<lambda>e :: nat. \<lparr>message = [], etype = []\<rparr>)
       (Connects True) initial)) 0 = Pending \<and>
   sent (onaudioprocess 0 [0] False
     (onopen (toggleSession (\<lambda>e :: nat. \<lparr>message = [], etype = []\<rparr>)
        (Connects True) initial))) = [] \<and>
   sent (resolve 0 (onaudioprocess 0 [0] False
     (onopen (toggleSession (\<lambda>e :: nat. \<lparr>message = [], etype = []\<rparr>)
        (Connects True) initial)))) = [SendRealtimeInput 0 (pcmBlob [0])]"
  by (simp add: onopen_def toggleSession_def initial_def select_key_def getUserMedia_def
      create_contexts_def promise_of_def onaudioprocess_def resolve_def settle_def sent_def)

text \<open>
  C6 (teardown on a failed connection). Every block captured against a rejected session
  promise calls \<open>cleanup\<close> from its own \<^verbatim>\<open>catch\<close>, and nothing keeps the later calls
  back: \<open>n\<close> blocks make \<open>n\<close> calls of \<open>cleanup\<close>. None of their packets is sent.
\<close>

theorem cleanup_on_each_failed_send:
  "promise_of s p = Rejected \<longrightarrow>
     cleanup_count (run_blocks p bs s) = cleanup_count s + length bs \<and>
     sent (run_blocks p bs s) = sent s"
  using cleanup_count_run_blocks[of s p bs] sent_run_blocks[of s p bs] by blast

theorem cleanup_on_each_failed_send_witness:
  "promise_of (reject 0 (onopen (toggleSession (\<lambda>e :: nat. \<lparr>message = [], etype = []\<rparr>)
       (Connects True) initial))) 0 = Rejected \<and>
   cleanup_count (run_blocks 0 [([0], False), ([0], False), ([0], False)]
     (reject 0 (onopen (toggleSession (\<lambda>e :: nat. \<lparr>message = [], etype = []\<rparr>)
        (Connects True) initial)))) = 3 \<and>
   sent (run_blocks 0 [([0], False), ([0], False), ([0], False)]
     (reject 0 (onopen (toggleSession (\<lambda>e :: nat. \<lparr>message = [], etype = []\<rparr>)
        (Connects True) initial)))) = []"
proof -
  let ?s = "reject 0 (onopen (toggleSession (\<lambda>e :: nat. \<lparr>message = [], etype = []\<rparr>)
       (Connects True) initial))"
  let ?bs = "[([0], False), ([0], False), ([0], False)] :: (real list \<times> bool) list"
  have p: "promise_of ?s 0 = Rejected"
    by (simp add: reject_def settle_def onopen_def toggleSession_def initial_def select_key_def
        getUserMedia_def create_contexts_def promise_of_def)
  have c: "cleanup_count ?s = 0"
    by (simp add: reject_def settle_def onopen_def toggleSession_def initial_def select_key_def
        getUserMedia_def create_contexts_def cleanup_count_def)
  have e: "sent ?s = []"
    by (simp add: reject_def settle_def onopen_def toggleSession_def initial_def select_key_def
        getUserMedia_def create_contexts_def sent_def)
  have "cleanup_count (run_blocks 0 ?bs ?s) = cleanup_count ?s + length ?bs \<and>
        sent (run_blocks 0 ?bs ?s) = sent ?s"
    using p cleanup_on_each_failed_send[of ?s 0 ?bs] by blast
  then have "cleanup_count (run_blocks 0 ?bs ?s) = 3 \<and> sent (run_blocks 0 ?bs ?s) = []"
    by (simp add: c e del: run_blocks.simps)
  then show ?thesis using p by blast
qed

text \<open>Two blocks after the connection has failed: \<open>cleanup\<close> is called twice.\<close>

theorem cleanup_on_each_failed_send_counterexample:
  "promise_of (reject 0 (onopen (toggleSession (\<lambda>e :: nat. \<lparr>message = [], etype = []\<rparr>)
       (Connects True) initial))) 0 = Rejected \<and>
   cleanup_count (run_blocks 0 [([0], False), ([0], False)]
     (reject 0 (onopen (toggleSession (\<lambda>e :: nat. \<lparr>message = [], etype = []\<rparr>)
        (Connects True) initial)))) = 2"
proof -
  let ?s = "reject 0 (onopen (toggleSession (\<lambda>e :: nat. \<lparr>message = [], etype = []\<rparr>)
       (Connects True) initial))"
  have p: "promise_of ?s 0 = Rejected"
    by (simp add: reject_def settle_def onopen_def toggleSession_def initial_def select_key_def
        getUserMedia_def create_contexts_def promise_of_def)
  have c: "cleanup_count ?s = 0"
    by (simp add: reject_def settle_def onopen_def toggleSession_def initial_def select_key_def
        getUserMedia_def create_contexts_def cleanup_count_def)
  have "cleanup_count (run_blocks 0 [([0], False), ([0], False)] ?s) = cleanup_count ?s + 2"
    using cleanup_count_run_blocks[OF p, of "[([0], False), ([0], False)]"] by simp
  then have "cleanup_count (run_blocks 0 [([0], False), ([0], False)] ?s) = 2"
    by (simp add: c del: run_blocks.simps)
  then show ?thesis using p by blast
qed

text \<open>
  C7 (scaling of samples). An outbound sample \<open>x\<close> is stored as \<open>x * 32768\<close> cut
  towards zero, and for \<open>-1 \<le> x < 1\<close> that value is the stored sample. At the upper end
  of the range, \<open>x = 1\<close>, the product 32768 does not fit 16 bits and the stored sample
  is \<open>-32768\<close>. An inbound sample is divided by 32768 (\<open>decodeAudioData\<close>).
\<close>

theorem scale_sample_full_scale: "sint (scale_sample 1) = - 32768"
  by (simp add: scale_sample_def ToInt16_def)

text \<open>
  C8 (what the end of a session resets). A stop request, a close of the connection and
  an error all run \<open>cleanup\<close>. \<open>cleanup\<close> clears both flags at once and never
  touches the transcript, whether it runs to its end at once, waits for the session
  promise or resumes when the promise settles: after a stop, a close or an error the
  transcript is what it was, and it is the next start request that empties it, whatever
  that start meets. The flush with which \<open>cleanup\<close> ends leaves no source registered
  and the cursor at 0.
\<close>

theorem cleanup_keeps_transcript:
  "transcription (cleanup s) = transcription s \<and>
   transcription (cleanup_resume p s) = transcription s \<and>
   transcription (settle outcome p s) = transcription s \<and>
   (isActive s \<or> isConnecting s \<longrightarrow>
      toggleSession h env s = cleanup s \<and>
      transcription (toggleSession h env s) = transcription s) \<and>
   transcription (onclose s) = transcription s \<and>
   transcription (onerror h e s) = transcription s \<and>
   \<not> isActive (cleanup s) \<and> \<not> isConnecting (cleanup s) \<and>
   \<not> isActive (onclose s) \<and> \<not> isConnecting (onclose s) \<and>
   \<not> isActive (onerror h e s) \<and> \<not> isConnecting (onerror h e s) \<and>
   sourcesRef (cleanup_devices s) = [] \<and> nextStartTimeRef (cleanup_devices s) = 0 \<and>
   sourcesRef (cleanup_resume p s) = [] \<and> nextStartTimeRef (cleanup_resume p s) = 0 \<and>
   (\<not> isActive s \<and> \<not> isConnecting s \<longrightarrow> transcription (toggleSession h env s) = [])"
proof -
  have "\<not> isActive (onerror h e s) \<and> \<not> isConnecting (onerror h e s)"
    by (rule flags_onerror)
  moreover have "transcription (onerror h e s) = transcription s"
    by (rule transcription_onerror)
  moreover have "\<not> isActive (onclose s) \<and> \<not> isConnecting (onclose s)"
    using flags_cleanup[of "s\<lparr>calls := calls s @ [ConsoleDebug]\<rparr>"] by (simp add: onclose_def)
  moreover have "transcription (onclose s) = transcription s"
    by (simp add: onclose_def transcription_cleanup)
  moreover have "\<not> isActive (cleanup s) \<and> \<not> isConnecting (cleanup s)"
    by (rule flags_cleanup)
  ultimately show ?thesis
    by (simp add: transcription_cleanup transcription_cleanup_resume transcription_settle
        toggleSession_def transcription_start sourcesRef_cleanup_devices
        sourcesRef_cleanup_resume nextStart_cleanup_devices nextStart_cleanup_resume)
qed

theorem cleanup_keeps_transcript_witness:
  "isActive (initial\<lparr>isActive := True, transcription := ''hello''\<rparr>) \<and>
   transcription (toggleSession (\<lambda>e :: nat. \<lparr>message = [], etype = []\<rparr>) (Connects True)
     (initial\<lparr>isActive := True, transcription := ''hello''\<rparr>)) = ''hello'' \<and>
   transcription (toggleSession (\<lambda>e :: nat. \<lparr>message = [], etype = []\<rparr>) (Connects True)
     (initial\<lparr>transcription := ''hello''\<rparr>)) = [] \<and>
   transcription (toggleSession (\<lambda>e :: nat. \<lparr>message = [], etype = []\<rparr>) (AcquireThrows True 0)
     (initial\<lparr>transcription := ''hello''\<rparr>)) = []"
proof -
  let ?h = "\<lambda>e :: nat. \<lparr>message = [], etype = []\<rparr>"
  let ?a = "initial\<lparr>isActive := True, transcription := ''hello''\<rparr>"
  let ?i = "initial\<lparr>transcription := ''hello''\<rparr>"
  have a: "isActive ?a" by simp
  have ta: "transcription ?a = ''hello''" by simp
  have idle: "\<not> isActive ?i \<and> \<not> isConnecting ?i" by (simp add: initial_def)
  have "transcription (toggleSession ?h (Connects True) ?a) = transcription ?a"
    using a cleanup_keeps_transcript[of ?a 0 Fulfilled ?h "Connects True" 0] by blast
  then have "transcription (toggleSession ?h (Connects True) ?a) = ''hello''"
    by (simp only: ta)
  moreover have "transcription (toggleSession ?h (Connects True) ?i) = []"
    using idle cleanup_keeps_transcript[of ?i 0 Fulfilled ?h "Connects True" 0] by blast
  moreover have "transcription (toggleSession ?h (AcquireThrows True 0) ?i) = []"
    using idle cleanup_keeps_transcript[of ?i 0 Fulfilled ?h "AcquireThrows True 0" 0] by blast
  ultimately show ?thesis using a by blast
qed

text \<open>
  A session that has received the transcript \<open>hello\<close> is stopped by the user: the
  transcript is still \<open>hello\<close>. And a session whose connection fails while it is
  connecting still holds its stream and its contexts after \<open>onerror\<close>: \<open>cleanup\<close>
  waits for the session promise, and nothing has been stopped or closed.
\<close>

theorem cleanup_keeps_transcript_counterexample:
  "isActive (fst (onmessage 1
       \<lparr>outputTranscription = Some (Some ''hello''), inlineData = None, interrupted = False\<rparr>
       (resolve 0 (onopen (toggleSession (\<lambda>e :: nat. \<lparr>message = [], etype = []\<rparr>)
          (Connects True) initial))))) \<and>
   transcription (toggleSession (\<lambda>e :: nat. \<lparr>message = [], etype = []\<rparr>) (Connects True)
     (fst (onmessage 1
       \<lparr>outputTranscription = Some (Some ''hello''), inlineData = None, interrupted = False\<rparr>
       (resolve 0 (onopen (toggleSession (\<lambda>e :: nat. \<lparr>message = [], etype = []\<rparr>)
          (Connects True) initial)))))) = ''hello'' \<and>
   streamRef (onerror (\<lambda>e :: nat. \<lparr>message = [], etype = []\<rparr>) 0
     (toggleSession (\<lambda>e :: nat. \<lparr>message = [], etype = []\<rparr>) (Connects True) initial)) =
     Some 0 \<and>
   audioContextsRef (onerror (\<lambda>e :: nat. \<lparr>message = [], etype = []\<rparr>) 0
     (toggleSession (\<lambda>e :: nat. \<lparr>message = [], etype = []\<rparr>) (Connects True) initial)) =
     Some 0 \<and>
   calls (onerror (\<lambda>e :: nat. \<lparr>message = [], etype = []\<rparr>) 0
     (toggleSession (\<lambda>e :: nat. \<lparr>message = [], etype = []\<rparr>) (Connects True) initial)) =
     [GetUserMedia 0, ContextsCreate 0, Connect 0, ConsoleError, CleanupCall]"
proof -
  let ?h = "\<lambda>e :: nat. \<lparr>message = [], etype = []\<rparr>"
  let ?c = "toggleSession ?h (Connects True) initial"
  have c: "?c = initial\<lparr>isConnecting := True, streamRef := Some 0, audioContextsRef := Some 0,
      streamCount := 1, contextCount := 1, promises := [Pending],
      calls := [GetUserMedia 0, ContextsCreate 0, Connect 0], sessionPromiseRef := Some 0\<rparr>"
    by (simp add: toggleSession_def initial_def select_key_def getUserMedia_def
        create_contexts_def)
  have e: "streamRef (onerror ?h 0 ?c) = Some 0 \<and> audioContextsRef (onerror ?h 0 ?c) = Some 0 \<and>
      calls (onerror ?h 0 ?c) = [GetUserMedia 0, ContextsCreate 0, Connect 0, ConsoleError, CleanupCall]"
    unfolding c
    by (simp add: onerror_def cleanup_begin_def cleanup_end_def promise_of_def initial_def
        Let_def)
  have "isActive (fst (onmessage 1
       \<lparr>outputTranscription = Some (Some ''hello''), inlineData = None, interrupted = False\<rparr>
       (resolve 0 (onopen ?c)))) \<and>
     transcription (toggleSession ?h (Connects True) (fst (onmessage 1
       \<lparr>outputTranscription = Some (Some ''hello''), inlineData = None, interrupted = False\<rparr>
       (resolve 0 (onopen ?c))))) = ''hello''"
    unfolding c
    by (simp add: toggleSession_def transcription_cleanup onmessage_def append_transcription_def
        handle_interrupted_def resolve_def settle_def onopen_def initial_def)
  then show ?thesis using e by blast
qed

text \<open>
  C9 (toggle). A request made while the session is connecting runs \<open>cleanup\<close>, which
  clears both flags and then waits for the session promise: while that promise is
  pending the connection is not closed and the stream and the contexts are not released.
  The next request therefore passes the guard and opens a second connection beside the
  first, with a second stream and a second pair of contexts in the refs. So it is on a
  fresh component after three requests in a row, and after a request, an error of the
  connection and a request, the connection promises still pending.
\<close>

theorem toggle_while_connecting_opens_second:
  "isConnecting (toggleSession (\<lambda>e :: nat. \<lparr>message = [], etype = []\<rparr>) (Connects True) initial) \<and>
   calls (toggleSession (\<lambda>e :: nat. \<lparr>message = [], etype = []\<rparr>) (Connects True)
     (toggleSession (\<lambda>e :: nat. \<lparr>message = [], etype = []\<rparr>) (Connects True) initial)) =
     [GetUserMedia 0, ContextsCreate 0, Connect 0, CleanupCall] \<and>
   streamRef (toggleSession (\<lambda>e :: nat. \<lparr>message = [], etype = []\<rparr>) (Connects True)
     (toggleSession (\<lambda>e :: nat. \<lparr>message = [], etype = []\<rparr>) (Connects True) initial)) =
     Some 0 \<and>
   calls (toggleSession (\<lambda>e :: nat. \<lparr>message = [], etype = []\<rparr>) (Connects True)
     (toggleSession (\<lambda>e :: nat. \<lparr>message = [], etype = []\<rparr>) (Connects True)
       (toggleSession (\<lambda>e :: nat. \<lparr>message = [], etype = []\<rparr>) (Connects True) initial))) =
     [GetUserMedia 0, ContextsCreate 0, Connect 0, CleanupCall,
      GetUserMedia 1, ContextsCreate 1, Connect 1] \<and>
   promises (toggleSession (\<lambda>e :: nat. \<lparr>message = [], etype = []\<rparr>) (Connects True)
     (toggleSession (\<lambda>e :: nat. \<lparr>message = [], etype = []\<rparr>) (Connects True)
       (toggleSession (\<lambda>e :: nat. \<lparr>message = [], etype = []\<rparr>) (Connects True) initial))) =
     [Pending, Pending] \<and>
   streamRef (toggleSession (\<lambda>e :: nat. \<lparr>message = [], etype = []\<rparr>) (Connects True)
     (toggleSession (\<lambda>e :: nat. \<lparr>message = [], etype = []\<rparr>) (Connects True)
       (toggleSession (\<lambda>e :: nat. \<lparr>message = [], etype = []\<rparr>) (Connects True) initial))) =
     Some 1 \<and>
   calls (toggleSession (\<lambda>e :: nat. \<lparr>message = [], etype = []\<rparr>) (Connects True)
     (onerror (\<lambda>e :: nat. \<lparr>message = [], etype = []\<rparr>) 0
       (toggleSession (\<lambda>e :: nat. \<lparr>message = [], etype = []\<rparr>) (Connects True) initial))) =
     [GetUserMedia 0, ContextsCreate 0, Connect 0, ConsoleError, CleanupCall,
      GetUserMedia 1, ContextsCreate 1, Connect 1] \<and>
   promises (toggleSession (\<lambda>e :: nat. \<lparr>message = [], etype = []\<rparr>) (Connects True)
     (onerror (\<lambda>e :: nat. \<lparr>message = [], etype = []\<rparr>) 0
       (toggleSession (\<lambda>e :: nat. \<lparr>message = [], etype = []\<rparr>) (Connects True) initial))) =
     [Pending, Pending]"
proof -
  let ?h = "\<lambda>e :: nat. \<lparr>message = [], etype = []\<rparr>"
  let ?c1 = "initial\<lparr>isConnecting := True, streamRef := Some 0, audioContextsRef := Some 0,
      streamCount := 1, contextCount := 1, promises := [Pending],
      calls := [GetUserMedia 0, ContextsCreate 0, Connect 0], sessionPromiseRef := Some 0\<rparr>"
  let ?c2 = "?c1\<lparr>isConnecting := False,
      calls := [GetUserMedia 0, ContextsCreate 0, Connect 0, CleanupCall],
      reactions := [(0, CleanupResume)]\<rparr>"
  let ?e2 = "?c1\<lparr>isConnecting := False, errorMsg := Some [],
      calls := [GetUserMedia 0, ContextsCreate 0, Connect 0, ConsoleError, CleanupCall],
      reactions := [(0, CleanupResume)]\<rparr>"
  have s1: "toggleSession ?h (Connects True) initial = ?c1"
    by (simp add: toggleSession_def initial_def select_key_def getUserMedia_def
        create_contexts_def)
  have s2: "toggleSession ?h (Connects True) ?c1 = ?c2"
    by (simp add: toggleSession_def cleanup_def promise_of_def initial_def Let_def)
  have e2: "onerror ?h 0 ?c1 = ?e2"
    by (simp add: onerror_def cleanup_begin_def cleanup_end_def promise_of_def initial_def
        Let_def)
  have s3: "calls (toggleSession ?h (Connects True) ?c2) =
        [GetUserMedia 0, ContextsCreate 0, Connect 0, CleanupCall,
         GetUserMedia 1, ContextsCreate 1, Connect 1] \<and>
      promises (toggleSession ?h (Connects True) ?c2) = [Pending, Pending] \<and>
      streamRef (toggleSession ?h (Connects True) ?c2) = Some 1"
    by (simp add: toggleSession_def initial_def select_key_def getUserMedia_def
        create_contexts_def Let_def)
  have e3: "calls (toggleSession ?h (Connects True) ?e2) =
        [GetUserMedia 0, ContextsCreate 0, Connect 0, ConsoleError, CleanupCall,
         GetUserMedia 1, ContextsCreate 1, Connect 1] \<and>
      promises (toggleSession ?h (Connects True) ?e2) = [Pending, Pending]"
    by (simp add: toggleSession_def initial_def select_key_def getUserMedia_def
        create_contexts_def Let_def)
  have "isConnecting ?c1 \<and> calls ?c2 = [GetUserMedia 0, ContextsCreate 0, Connect 0, CleanupCall] \<and>
      streamRef ?c2 = Some 0"
    by (simp add: initial_def)
  then show ?thesis unfolding s1 s2 e2 using s3 e3 by blast
qed

text \<open>
  C10 (the error message outlives the teardown). \<open>cleanup\<close> leaves \<open>errorMsg\<close> as it
  is, whether it runs to its end at once, waits for the session promise or resumes when
  the promise settles; run to its end, it has cleared the flags, the refs, the sources and
  the cursor. After \<open>onerror\<close> the session is neither active nor connecting and
  the message of the error is shown; \<open>onclose\<close> and a stop request keep it; the
  dismiss button clears it, and so does a start request, which then shows only what
  that start itself reports.
\<close>

theorem cleanup_keeps_errorMsg:
  "errorMsg (cleanup s) = errorMsg s \<and>
   (cleanup_completes s \<longrightarrow> torn_down (cleanup s)) \<and>
   errorMsg (cleanup_resume p s) = errorMsg s \<and>
   errorMsg (settle outcome p s) = errorMsg s \<and>
   errorMsg (onerror h e s) = Some (message (h e)) \<and>
   \<not> isActive (onerror h e s) \<and> \<not> isConnecting (onerror h e s) \<and>
   errorMsg (onclose s) = errorMsg s \<and>
   (isActive s \<or> isConnecting s \<longrightarrow> errorMsg (toggleSession h env s) = errorMsg s) \<and>
   errorMsg (dismiss s) = None \<and>
   (\<not> isActive s \<and> \<not> isConnecting s \<longrightarrow>
      errorMsg (toggleSession h (Connects hasKey) s) = None \<and>
      errorMsg (toggleSession h (KeyCheckThrows e) s) = Some (message (h e)) \<and>
      errorMsg (toggleSession h (AcquireThrows hasKey e) s) = Some (message (h e)) \<and>
      errorMsg (toggleSession h (ContextThrows hasKey e) s) = Some (message (h e)) \<and>
      errorMsg (toggleSession h (ResumeThrows hasKey e) s) = Some (message (h e)))"
proof -
  have "errorMsg (onerror h e s) = Some (message (h e))"
    by (rule errorMsg_onerror)
  moreover have "\<not> isActive (onerror h e s) \<and> \<not> isConnecting (onerror h e s)"
    by (rule flags_onerror)
  ultimately show ?thesis
    by (simp add: errorMsg_cleanup errorMsg_cleanup_resume errorMsg_settle onclose_def
        toggleSession_def dismiss_def start_failed_def select_key_def getUserMedia_def
        create_contexts_def Let_def torn_down_cleanup)
qed

theorem cleanup_keeps_errorMsg_witness:
  "errorMsg (onerror (\<lambda>e :: nat. \<lparr>message = ''connection lost'', etype = ''network''\<rparr>) 0
     (resolve 0 (onopen
        (toggleSession (\<lambda>e :: nat. \<lparr>message = ''connection lost'', etype = ''network''\<rparr>)
           (Connects True) initial)))) = Some ''connection lost'' \<and>
   errorMsg (onclose (onerror (\<lambda>e :: nat. \<lparr>message = ''connection lost'', etype = ''network''\<rparr>) 0
     (resolve 0 (onopen
        (toggleSession (\<lambda>e :: nat. \<lparr>message = ''connection lost'', etype = ''network''\<rparr>)
           (Connects True) initial))))) = Some ''connection lost'' \<and>
   errorMsg (toggleSession (\<lambda>e :: nat. \<lparr>message = ''connection lost'', etype = ''network''\<rparr>)
     (Connects True)
     (onerror (\<lambda>e :: nat. \<lparr>message = ''connection lost'', etype = ''network''\<rparr>) 0
       (resolve 0 (onopen
          (toggleSession (\<lambda>e :: nat. \<lparr>message = ''connection lost'', etype = ''network''\<rparr>)
             (Connects True) initial))))) = None \<and>
   errorMsg (toggleSession (\<lambda>e :: nat. \<lparr>message = ''connection lost'', etype = ''network''\<rparr>)
     (Connects True)
     (initial\<lparr>isActive := True, errorMsg := Some ''earlier''\<rparr>)) = Some ''earlier''"
proof -
  let ?h = "\<lambda>e :: nat. \<lparr>message = ''connection lost'', etype = ''network''\<rparr>"
  let ?s = "resolve 0 (onopen (toggleSession ?h (Connects True) initial))"
  let ?a = "initial\<lparr>isActive := True, errorMsg := Some ''earlier''\<rparr>"
  have "errorMsg (onerror ?h 0 ?s) = Some ''connection lost''"
    using cleanup_keeps_errorMsg[of ?s 0 Fulfilled ?h 0 "Connects True" True] by simp
  moreover have "errorMsg (onclose (onerror ?h 0 ?s)) = errorMsg (onerror ?h 0 ?s)"
    using cleanup_keeps_errorMsg[of "onerror ?h 0 ?s" 0 Fulfilled ?h 0 "Connects True" True]
    by blast
  moreover have "errorMsg (toggleSession ?h (Connects True) (onerror ?h 0 ?s)) = None"
    using cleanup_keeps_errorMsg[of "onerror ?h 0 ?s" 0 Fulfilled ?h 0 "Connects True" True]
      cleanup_keeps_errorMsg[of ?s 0 Fulfilled ?h 0 "Connects True" True]
    by blast
  moreover have "errorMsg (toggleSession ?h (Connects True) ?a) = errorMsg ?a"
  proof -
    have "isActive ?a" by simp
    then show ?thesis
      using cleanup_keeps_errorMsg[of ?a 0 Fulfilled ?h 0 "Connects True" True] by blast
  qed
  ultimately show ?thesis by simp
qed

end
